theory Spec2Isabelle
  imports Main
begin

section \<open>Python values used by the model\<close>

text \<open>
  The exceptions the modelled code can raise. A call that can raise returns
  \<open>error + 'a\<close> (\<open>Inl\<close> the exception); a method that mutates its object and can
  raise returns the pair of that result and the object as the raise left it.
\<close>

datatype error = IndexError | ZeroDivisionError | StopIteration | RuntimeError | ValueError

text \<open>
  Python subscripting \<^verbatim>\<open>xs[i]\<close>: a negative index counts from the end, and an
  index outside the list raises IndexError.
\<close>

definition py_index :: "'a list \<Rightarrow> int \<Rightarrow> error + nat" where
  "py_index xs i =
     (let n = int (length xs); j = (if i < 0 then i + n else i)
      in if 0 \<le> j \<and> j < n then Inr (nat j) else Inl IndexError)"

definition py_getitem :: "'a list \<Rightarrow> int \<Rightarrow> error + 'a" where
  "py_getitem xs i = (case py_index xs i of Inl e \<Rightarrow> Inl e | Inr j \<Rightarrow> Inr (xs ! j))"

definition py_setitem :: "'a list \<Rightarrow> int \<Rightarrow> 'a \<Rightarrow> error + 'a list" where
  "py_setitem xs i v = (case py_index xs i of Inl e \<Rightarrow> Inl e | Inr j \<Rightarrow> Inr (xs[j := v]))"

section \<open>tetromino.py: the piece catalog\<close>

type_synonym coordinate = "int \<times> int"

record tetromino =
  name :: string
  rotations :: "coordinate list list"
  color :: string

record tetromino_state =
  tetromino :: tetromino
  rotation_index :: int

text \<open>
  \<^verbatim>\<open>Tetromino.rotated\<close>: \<^verbatim>\<open>rotation_index % len(self.rotations)\<close>. Python's \<^verbatim>\<open>%\<close>
  with a positive divisor is the floor modulus, as \<open>mod\<close> on \<open>int\<close> is; with no
  rotation defined it raises ZeroDivisionError.
\<close>

definition rotated :: "tetromino \<Rightarrow> int \<Rightarrow> error + tetromino_state" where
  "rotated t rot_index =
     (if length (rotations t) = 0 then Inl ZeroDivisionError
      else Inr \<lparr>tetromino = t, rotation_index = rot_index mod int (length (rotations t))\<rparr>)"

text \<open>\<^verbatim>\<open>TetrominoState.blocks\<close>: \<^verbatim>\<open>self.tetromino.rotations[self.rotation_index]\<close>.\<close>

definition blocks :: "tetromino_state \<Rightarrow> error + coordinate list" where
  "blocks s = py_getitem (rotations (tetromino s)) (rotation_index s)"

definition tetromino_I :: tetromino where
  "tetromino_I = \<lparr>name = ''I'',
     rotations = [[(-2, 0), (-1, 0), (0, 0), (1, 0)],
                  [(0, -1), (0, 0), (0, 1), (0, 2)]],
     color = ''cyan''\<rparr>"

definition tetromino_O :: tetromino where
  "tetromino_O = \<lparr>name = ''O'',
     rotations = [[(0, 0), (1, 0), (0, 1), (1, 1)]],
     color = ''yellow''\<rparr>"

definition tetromino_T :: tetromino where
  "tetromino_T = \<lparr>name = ''T'',
     rotations = [[(-1, 0), (0, 0), (1, 0), (0, 1)],
                  [(0, -1), (0, 0), (1, 0), (0, 1)],
                  [(0, -1), (-1, 0), (0, 0), (1, 0)],
                  [(0, -1), (-1, 0), (0, 0), (0, 1)]],
     color = ''purple''\<rparr>"

definition tetromino_S :: tetromino where
  "tetromino_S = \<lparr>name = ''S'',
     rotations = [[(0, 0), (1, 0), (-1, 1), (0, 1)],
                  [(0, -1), (0, 0), (1, 0), (1, 1)]],
     color = ''green''\<rparr>"

definition tetromino_Z :: tetromino where
  "tetromino_Z = \<lparr>name = ''Z'',
     rotations = [[(-1, 0), (0, 0), (0, 1), (1, 1)],
                  [(1, -1), (0, 0), (1, 0), (0, 1)]],
     color = ''red''\<rparr>"

definition tetromino_J :: tetromino where
  "tetromino_J = \<lparr>name = ''J'',
     rotations = [[(-1, 0), (0, 0), (1, 0), (-1, 1)],
                  [(0, -1), (0, 0), (0, 1), (1, -1)],
                  [(1, -1), (-1, 0), (0, 0), (1, 0)],
                  [(-1, 1), (0, -1), (0, 0), (0, 1)]],
     color = ''blue''\<rparr>"

definition tetromino_L :: tetromino where
  "tetromino_L = \<lparr>name = ''L'',
     rotations = [[(-1, 0), (0, 0), (1, 0), (1, 1)],
                  [(0, -1), (0, 0), (0, 1), (1, 1)],
                  [(-1, -1), (-1, 0), (0, 0), (1, 0)],
                  [(-1, -1), (0, -1), (0, 0), (0, 1)]],
     color = ''orange''\<rparr>"

definition ALL_TETROMINOES :: "tetromino list" where
  "ALL_TETROMINOES = [tetromino_I, tetromino_O, tetromino_T, tetromino_S,
                      tetromino_Z, tetromino_J, tetromino_L]"

section \<open>board.py: the grid\<close>

type_synonym cell = "string option"

record board =
  width :: int
  height :: int
  grid :: "cell list list"

text \<open>\<^verbatim>\<open>Board.__post_init__\<close>: \<open>height\<close> fresh rows of \<open>width\<close> empty cells.\<close>

definition Board_init :: "int \<Rightarrow> int \<Rightarrow> board" where
  "Board_init w h = \<lparr>width = w, height = h, grid = replicate (nat h) (replicate (nat w) None)\<rparr>"

text \<open>The read \<^verbatim>\<open>grid[y][x]\<close> and the assignment \<^verbatim>\<open>grid[y][x] = v\<close>.\<close>

definition grid_get :: "cell list list \<Rightarrow> int \<Rightarrow> int \<Rightarrow> error + cell" where
  "grid_get g y x = (case py_getitem g y of Inl e \<Rightarrow> Inl e | Inr row \<Rightarrow> py_getitem row x)"

definition grid_set :: "cell list list \<Rightarrow> int \<Rightarrow> int \<Rightarrow> cell \<Rightarrow> error + cell list list" where
  "grid_set g y x v =
     (case py_index g y of Inl e \<Rightarrow> Inl e
      | Inr j \<Rightarrow> (case py_setitem (g ! j) x v of Inl e \<Rightarrow> Inl e
                 | Inr row \<Rightarrow> Inr (g[j := row])))"

text \<open>
  A loop \<^verbatim>\<open>for x, y in cells: grid[y][x] = v\<close>. A raise stops it and leaves the
  cells written so far.
\<close>

fun grid_assign_all :: "cell list list \<Rightarrow> coordinate list \<Rightarrow> cell \<Rightarrow> (error + unit) \<times> cell list list" where
  "grid_assign_all g [] v = (Inr (), g)"
| "grid_assign_all g ((x, y) # cs) v =
     (case grid_set g y x v of Inl e \<Rightarrow> (Inl e, g) | Inr g' \<Rightarrow> grid_assign_all g' cs v)"

text \<open>
  \<^verbatim>\<open>Board.reset\<close>: \<^verbatim>\<open>for y in range(height): for x in range(width): grid[y][x] = None\<close>.
\<close>

definition Board_reset :: "board \<Rightarrow> (error + unit) \<times> board" where
  "Board_reset b =
     (let cells = concat (map (\<lambda>y. map (\<lambda>x. (x, y)) [0 .. width b - 1]) [0 .. height b - 1]);
          (r, g') = grid_assign_all (grid b) cells None
      in (r, b\<lparr>grid := g'\<rparr>))"

definition in_bounds :: "board \<Rightarrow> int \<Rightarrow> int \<Rightarrow> bool" where
  "in_bounds b x y \<longleftrightarrow> 0 \<le> x \<and> x < width b \<and> 0 \<le> y \<and> y < height b"

text \<open>\<^verbatim>\<open>Board.can_place\<close>: the first offending block returns False.\<close>

fun Board_can_place :: "board \<Rightarrow> coordinate list \<Rightarrow> error + bool" where
  "Board_can_place b [] = Inr True"
| "Board_can_place b ((x, y) # bs) =
     (if x < 0 \<or> x \<ge> width b then Inr False
      else if y \<ge> height b then Inr False
      else if y \<ge> 0 then
        (case grid_get (grid b) y x of
           Inl e \<Rightarrow> Inl e
         | Inr c \<Rightarrow> if c \<noteq> None then Inr False else Board_can_place b bs)
      else Board_can_place b bs)"

text \<open>
  \<^verbatim>\<open>Board.lock_piece\<close>: blocks above the top (\<open>y < 0\<close>) are skipped, the others
  are written without any check.
\<close>

definition Board_lock_piece :: "board \<Rightarrow> coordinate list \<Rightarrow> string \<Rightarrow> (error + unit) \<times> board" where
  "Board_lock_piece b bs v =
     (let (r, g') = grid_assign_all (grid b) (filter (\<lambda>(x, y). \<not> y < 0) bs) (Some v)
      in (r, b\<lparr>grid := g'\<rparr>))"

text \<open>
  \<^verbatim>\<open>Board.clear_full_lines\<close>. A row stays when \<^verbatim>\<open>any(cell is None for cell in row)\<close>;
  the count is \<^verbatim>\<open>self.height - len(remaining)\<close>, and the grid is rebuilt only when
  that count is not zero. \<^verbatim>\<open>range\<close> of a negative count is empty.
\<close>

definition row_has_empty :: "cell list \<Rightarrow> bool" where
  "row_has_empty row \<longleftrightarrow> list_ex (\<lambda>c. c = None) row"

definition Board_clear_full_lines :: "board \<Rightarrow> int \<times> board" where
  "Board_clear_full_lines b =
     (let remaining = filter row_has_empty (grid b);
          cleared = height b - int (length remaining)
      in if cleared \<noteq> 0
         then (cleared, b\<lparr>grid := replicate (nat cleared) (replicate (nat (width b)) None) @ remaining\<rparr>)
         else (cleared, b))"

section \<open>profiles.py: the profile store\<close>

text \<open>
  The store is the JSON document \<^verbatim>\<open>ProfileManager._data\<close>, typed: every value of
  \<^verbatim>\<open>"profiles"\<close> is a dictionary written by \<^verbatim>\<open>Profile.to_dict\<close>. The key
  \<^verbatim>\<open>"scores"\<close> may be missing (the code reads it with \<^verbatim>\<open>setdefault\<close>).
  \<^verbatim>\<open>save()\<close> writes the document to its file and changes nothing in memory; the
  clock \<^verbatim>\<open>_now()\<close> is a parameter of the operations that read it.
\<close>

record profile =
  p_name :: string
  created_at :: string
  last_played :: "string option"
  games_played :: int
  best_score :: int

record score_entry =
  entry_profile :: string
  entry_score :: int
  entry_lines :: int
  entry_played_at :: "string option"

record profile_manager =
  data_active_profile :: "string option"
  data_profiles :: "string \<rightharpoonup> profile"
  data_scores :: "score_entry list option"

definition get_profile :: "profile_manager \<Rightarrow> string \<Rightarrow> profile option" where
  "get_profile pm n = data_profiles pm n"

text \<open>\<^verbatim>\<open>ProfileManager.create_profile\<close>.\<close>

definition create_profile :: "profile_manager \<Rightarrow> string \<Rightarrow> string \<Rightarrow> (error + profile) \<times> profile_manager" where
  "create_profile pm n now =
     (if data_profiles pm n \<noteq> None then (Inl ValueError, pm)
      else let p = \<lparr>p_name = n, created_at = now, last_played = None,
                     games_played = 0, best_score = 0\<rparr>
           in (Inr p, pm\<lparr>data_profiles := (data_profiles pm)(n \<mapsto> p),
                          data_active_profile := Some n\<rparr>))"

text \<open>\<^verbatim>\<open>ProfileManager.record_game\<close>.\<close>

definition record_game :: "profile_manager \<Rightarrow> string \<Rightarrow> int \<Rightarrow> int \<Rightarrow> string \<Rightarrow> (error + unit) \<times> profile_manager" where
  "record_game pm pname sc lns now =
     (case get_profile pm pname of
        None \<Rightarrow> (Inl ValueError, pm)
      | Some p \<Rightarrow>
          let p1 = p\<lparr>games_played := games_played p + 1\<rparr>;
              p2 = p1\<lparr>last_played := Some now\<rparr>;
              p3 = (if sc > best_score p2 then p2\<lparr>best_score := sc\<rparr> else p2);
              entry = \<lparr>entry_profile = pname, entry_score = sc, entry_lines = lns,
                       entry_played_at = last_played p3\<rparr>
          in (Inr (),
              pm\<lparr>data_profiles := (data_profiles pm)(pname \<mapsto> p3),
                 data_scores := Some ((case data_scores pm of None \<Rightarrow> [] | Some es \<Rightarrow> es) @ [entry])\<rparr>))"

section \<open>scores.py: the score engine\<close>

record score_snapshot =
  snap_score :: int
  snap_lines :: int

record score_manager =
  profile_manager :: profile_manager
  score :: int
  total_lines :: int
  combo_streak :: int
  active_profile :: "string option"

definition line_scores :: "int \<rightharpoonup> int" where
  "line_scores = [1 \<mapsto> 100, 2 \<mapsto> 300, 3 \<mapsto> 500, 4 \<mapsto> 800]"

definition combo_bonus :: int where "combo_bonus = 50"
definition soft_drop_bonus :: int where "soft_drop_bonus = 1"
definition hard_drop_bonus :: int where "hard_drop_bonus = 2"

definition ScoreManager_reset :: "score_manager \<Rightarrow> score_manager" where
  "ScoreManager_reset sm = sm\<lparr>score := 0, total_lines := 0, combo_streak := 0, active_profile := None\<rparr>"

definition ScoreManager_init :: "profile_manager \<Rightarrow> score_manager" where
  "ScoreManager_init pm =
     ScoreManager_reset \<lparr>profile_manager = pm, score = 0, total_lines = 0, combo_streak = 0,
                         active_profile = None\<rparr>"

definition attach_profile :: "score_manager \<Rightarrow> string \<Rightarrow> score_manager" where
  "attach_profile sm n = sm\<lparr>active_profile := Some n\<rparr>"

definition add_soft_drop :: "score_manager \<Rightarrow> int \<Rightarrow> score_manager" where
  "add_soft_drop sm cells =
     (if cells \<le> 0 then sm else sm\<lparr>score := score sm + cells * soft_drop_bonus\<rparr>)"

definition add_hard_drop :: "score_manager \<Rightarrow> int \<Rightarrow> score_manager" where
  "add_hard_drop sm cells =
     (if cells \<le> 0 then sm else sm\<lparr>score := score sm + cells * hard_drop_bonus\<rparr>)"

text \<open>\<^verbatim>\<open>ScoreManager.record_line_clear\<close>: the gain returned, and the engine after it.\<close>

definition record_line_clear :: "score_manager \<Rightarrow> int \<Rightarrow> int \<times> score_manager" where
  "record_line_clear sm lns =
     (if lns \<le> 0 then (0, sm\<lparr>combo_streak := 0\<rparr>)
      else let sm1 = sm\<lparr>combo_streak := combo_streak sm + 1\<rparr>;
               sm2 = sm1\<lparr>total_lines := total_lines sm1 + lns\<rparr>;
               base = (case line_scores lns of Some pts \<Rightarrow> pts | None \<Rightarrow> lns * 100);
               combo_points = (combo_streak sm2 - 1) * combo_bonus;
               gained = base + combo_points
           in (gained, sm2\<lparr>score := score sm2 + gained\<rparr>))"

text \<open>
  \<^verbatim>\<open>ScoreManager.finalize\<close>: \<^verbatim>\<open>not self.active_profile\<close> holds for None and for
  the empty string.
\<close>

definition ScoreManager_finalize :: "score_manager \<Rightarrow> string \<Rightarrow> (error + score_snapshot) \<times> score_manager" where
  "ScoreManager_finalize sm now =
     (case active_profile sm of
        None \<Rightarrow> (Inl RuntimeError, sm)
      | Some n \<Rightarrow>
          if n = [] then (Inl RuntimeError, sm)
          else let snapshot = \<lparr>snap_score = score sm, snap_lines = total_lines sm\<rparr>
               in (case record_game (profile_manager sm) n (snap_score snapshot) (snap_lines snapshot) now of
                     (Inl e, pm') \<Rightarrow> (Inl e, sm\<lparr>profile_manager := pm'\<rparr>)
                   | (Inr u, pm') \<Rightarrow> (Inr snapshot, sm\<lparr>profile_manager := pm'\<rparr>)))"

section \<open>game.py: the game controller\<close>

record active_piece =
  state :: tetromino_state
  origin :: coordinate

text \<open>\<^verbatim>\<open>ActivePiece.blocks\<close>: the offsets of the state, translated by the origin.\<close>

definition ActivePiece_blocks :: "active_piece \<Rightarrow> error + coordinate list" where
  "ActivePiece_blocks a =
     (case blocks (state a) of
        Inl e \<Rightarrow> Inl e
      | Inr bs \<Rightarrow> Inr (map (\<lambda>(dx, dy). (fst (origin a) + dx, snd (origin a) + dy)) bs))"

text \<open>
  The random source \<^verbatim>\<open>random.Random\<close>: its state and what \<^verbatim>\<open>shuffle\<close> does
  with a list in that state (the shuffled list and the next state). No property
  below depends on the order \<^verbatim>\<open>shuffle\<close> produces.
\<close>

record py_random =
  rng_state :: nat
  rng_shuffle :: "nat \<Rightarrow> tetromino list \<Rightarrow> tetromino list \<times> nat"

record game =
  board :: board
  score_manager :: score_manager
  piece_sequence :: "tetromino list option"
  rng :: py_random
  bag :: "tetromino list"
  active :: "active_piece option"
  game_over :: bool

text \<open>
  \<^verbatim>\<open>Game.__init__\<close>. The board defaults to \<^verbatim>\<open>Board()\<close> (10 by 20); an empty
  piece sequence counts as none (\<^verbatim>\<open>list(piece_sequence) if piece_sequence else None\<close>).
  The score manager and the random source are given.
\<close>

definition Game_init :: "board option \<Rightarrow> score_manager \<Rightarrow> tetromino list option \<Rightarrow> py_random \<Rightarrow> game" where
  "Game_init b sm pieces r =
     \<lparr>board = (case b of None \<Rightarrow> Board_init 10 20 | Some b' \<Rightarrow> b'),
      score_manager = sm,
      piece_sequence = (case pieces of None \<Rightarrow> None | Some ps \<Rightarrow> if ps = [] then None else Some ps),
      rng = r,
      bag = [],
      active = None,
      game_over = False\<rparr>"

definition draw_from_sequence :: "game \<Rightarrow> (error + tetromino) \<times> game" where
  "draw_from_sequence g =
     (case piece_sequence g of
        None \<Rightarrow> (Inl RuntimeError, g)
      | Some [] \<Rightarrow> (Inl StopIteration, g)
      | Some (t # ts) \<Rightarrow> (Inr t, g\<lparr>piece_sequence := Some ts\<rparr>))"

text \<open>
  \<^verbatim>\<open>Game._draw_from_bag\<close>: an empty bag is refilled with the catalog and shuffled;
  \<^verbatim>\<open>pop(0)\<close> of a list that is still empty raises IndexError.
\<close>

definition draw_from_bag :: "game \<Rightarrow> (error + tetromino) \<times> game" where
  "draw_from_bag g =
     (let g1 = (if bag g = []
                then (let (shuffled, st) = rng_shuffle (rng g) (rng_state (rng g)) ALL_TETROMINOES
                      in g\<lparr>bag := shuffled, rng := (rng g)\<lparr>rng_state := st\<rparr>\<rparr>)
                else g)
      in case bag g1 of
           [] \<Rightarrow> (Inl IndexError, g1)
         | t # ts \<Rightarrow> (Inr t, g1\<lparr>bag := ts\<rparr>))"

definition next_tetromino :: "game \<Rightarrow> (error + tetromino) \<times> game" where
  "next_tetromino g = (if piece_sequence g \<noteq> None then draw_from_sequence g else draw_from_bag g)"

text \<open>
  \<^verbatim>\<open>Game._spawn_next_piece\<close>. Only StopIteration is caught; \<^verbatim>\<open>//\<close> is the floor
  division, as \<open>div\<close> on \<open>int\<close> is.
\<close>

definition spawn_next_piece :: "game \<Rightarrow> (error + unit) \<times> game" where
  "spawn_next_piece g =
     (case next_tetromino g of
        (Inl e, g1) \<Rightarrow>
          if e = StopIteration then (Inr (), g1\<lparr>game_over := True, active := None\<rparr>)
          else (Inl e, g1)
      | (Inr t, g1) \<Rightarrow>
          (case rotated t 0 of
             Inl e \<Rightarrow> (Inl e, g1)
           | Inr st \<Rightarrow>
               let a = \<lparr>state = st, origin = (width (board g1) div 2, 0)\<rparr>
               in (case ActivePiece_blocks a of
                     Inl e \<Rightarrow> (Inl e, g1)
                   | Inr bs \<Rightarrow>
                       (case Board_can_place (board g1) bs of
                          Inl e \<Rightarrow> (Inl e, g1)
                        | Inr ok \<Rightarrow>
                            if \<not> ok then (Inr (), g1\<lparr>game_over := True, active := None\<rparr>)
                            else (Inr (), g1\<lparr>active := Some a\<rparr>)))))"

text \<open>
  \<^verbatim>\<open>Game.start\<close>. \<^verbatim>\<open>if profile_name:\<close> attaches a name that is neither None nor
  empty.
\<close>

definition Game_start :: "game \<Rightarrow> string option \<Rightarrow> (error + unit) \<times> game" where
  "Game_start g profile =
     (case Board_reset (board g) of
        (Inl e, b') \<Rightarrow> (Inl e, g\<lparr>board := b'\<rparr>)
      | (Inr u, b') \<Rightarrow>
          let sm1 = ScoreManager_reset (score_manager g);
              sm2 = (case profile of
                       None \<Rightarrow> sm1
                     | Some n \<Rightarrow> if n = [] then sm1 else attach_profile sm1 n)
          in spawn_next_piece (g\<lparr>board := b', score_manager := sm2, bag := [], game_over := False\<rparr>))"

text \<open>
  \<^verbatim>\<open>Game.move\<close>. The soft-drop credit is given for every accepted move with
  \<open>dy > 0\<close>, before the piece is replaced.
\<close>

definition Game_move :: "game \<Rightarrow> int \<Rightarrow> int \<Rightarrow> (error + bool) \<times> game" where
  "Game_move g dx dy =
     (case active g of
        None \<Rightarrow> (Inr False, g)
      | Some a \<Rightarrow>
          if game_over g then (Inr False, g)
          else
            let new_origin = (fst (origin a) + dx, snd (origin a) + dy)
            in (case blocks (state a) of
                  Inl e \<Rightarrow> (Inl e, g)
                | Inr bs \<Rightarrow>
                    let new_blocks = map (\<lambda>(bx, by). (fst new_origin + bx, snd new_origin + by)) bs
                    in (case Board_can_place (board g) new_blocks of
                          Inl e \<Rightarrow> (Inl e, g)
                        | Inr ok \<Rightarrow>
                            if \<not> ok then (Inr False, g)
                            else
                              let g1 = (if dy > 0
                                        then g\<lparr>score_manager := add_soft_drop (score_manager g) 1\<rparr>
                                        else g)
                              in (Inr True, g1\<lparr>active := Some \<lparr>state = state a, origin = new_origin\<rparr>\<rparr>))))"

definition move_left :: "game \<Rightarrow> (error + bool) \<times> game" where
  "move_left g = Game_move g (-1) 0"

definition move_right :: "game \<Rightarrow> (error + bool) \<times> game" where
  "move_right g = Game_move g 1 0"

definition soft_drop :: "game \<Rightarrow> (error + bool) \<times> game" where
  "soft_drop g = Game_move g 0 1"

text \<open>\<^verbatim>\<open>Game.rotate\<close>: no other origin is tried when the rotated cells do not fit.\<close>

definition Game_rotate :: "game \<Rightarrow> bool \<Rightarrow> (error + bool) \<times> game" where
  "Game_rotate g clockwise =
     (case active g of
        None \<Rightarrow> (Inr False, g)
      | Some a \<Rightarrow>
          if game_over g then (Inr False, g)
          else
            let delta = (if clockwise then 1 else - 1)
            in (case rotated (tetromino (state a)) (rotation_index (state a) + delta) of
                  Inl e \<Rightarrow> (Inl e, g)
                | Inr new_state \<Rightarrow>
                    (case blocks new_state of
                       Inl e \<Rightarrow> (Inl e, g)
                     | Inr bs \<Rightarrow>
                         let new_blocks = map (\<lambda>(bx, by). (fst (origin a) + bx, snd (origin a) + by)) bs
                         in (case Board_can_place (board g) new_blocks of
                               Inl e \<Rightarrow> (Inl e, g)
                             | Inr ok \<Rightarrow>
                                 if \<not> ok then (Inr False, g)
                                 else (Inr True, g\<lparr>active := Some \<lparr>state = new_state, origin = origin a\<rparr>\<rparr>)))))"

text \<open>
  \<^verbatim>\<open>Game.lock_piece\<close>: write the blocks, clear the full lines, report the count
  to the score engine, drop the piece and spawn the next one.
\<close>

definition Game_lock_piece :: "game \<Rightarrow> (error + unit) \<times> game" where
  "Game_lock_piece g =
     (case active g of
        None \<Rightarrow> (Inr (), g)
      | Some a \<Rightarrow>
          (case ActivePiece_blocks a of
             Inl e \<Rightarrow> (Inl e, g)
           | Inr bs \<Rightarrow>
               (case Board_lock_piece (board g) bs (name (tetromino (state a))) of
                  (Inl e, b1) \<Rightarrow> (Inl e, g\<lparr>board := b1\<rparr>)
                | (Inr u, b1) \<Rightarrow>
                    let (lns, b2) = Board_clear_full_lines b1;
                        (gained, sm') = record_line_clear (score_manager g) lns
                    in spawn_next_piece (g\<lparr>board := b2, score_manager := sm', active := None\<rparr>))))"

text \<open>\<^verbatim>\<open>Game.tick\<close>: the gravity step.\<close>

definition Game_tick :: "game \<Rightarrow> (error + unit) \<times> game" where
  "Game_tick g =
     (if active g = None \<or> game_over g then (Inr (), g)
      else (case Game_move g 0 1 of
              (Inl e, g') \<Rightarrow> (Inl e, g')
            | (Inr moved, g') \<Rightarrow> if \<not> moved then Game_lock_piece g' else (Inr (), g')))"

text \<open>
  \<^verbatim>\<open>Game.hard_drop\<close>. The loop \<^verbatim>\<open>while self.move(0, 1): distance += 1\<close> ends when
  a move is refused; for a piece without blocks no move is ever refused, so the
  loop is a partial function and \<open>None\<close> stands for a call that never returns.
\<close>

partial_function (option) hard_drop_loop :: "game \<Rightarrow> int \<Rightarrow> ((error + int) \<times> game) option" where
  "hard_drop_loop g distance =
     (case Game_move g 0 1 of
        (Inl e, g') \<Rightarrow> Some (Inl e, g')
      | (Inr moved, g') \<Rightarrow>
          if moved then hard_drop_loop g' (distance + 1) else Some (Inr distance, g'))"

declare hard_drop_loop.simps [code]

definition Game_hard_drop :: "game \<Rightarrow> ((error + unit) \<times> game) option" where
  "Game_hard_drop g =
     (if active g = None \<or> game_over g then Some (Inr (), g)
      else (case hard_drop_loop g 0 of
              None \<Rightarrow> None
            | Some (Inl e, g1) \<Rightarrow> Some (Inl e, g1)
            | Some (Inr distance, g1) \<Rightarrow>
                Some (Game_lock_piece (g1\<lparr>score_manager := add_hard_drop (score_manager g1) distance\<rparr>))))"

text \<open>\<^verbatim>\<open>Game.finalize\<close>: only RuntimeError is swallowed.\<close>

definition Game_finalize :: "game \<Rightarrow> string \<Rightarrow> (error + unit) \<times> game" where
  "Game_finalize g now =
     (if game_over g \<or> active g = None
      then (case ScoreManager_finalize (score_manager g) now of
              (Inl e, sm') \<Rightarrow>
                if e = RuntimeError then (Inr (), g\<lparr>score_manager := sm'\<rparr>)
                else (Inl e, g\<lparr>score_manager := sm'\<rparr>)
            | (Inr snapshot, sm') \<Rightarrow> (Inr (), g\<lparr>score_manager := sm'\<rparr>))
      else (Inr (), g))"

section \<open>Notions the properties are stated with\<close>

text \<open>The offsets \<^verbatim>\<open>shape.rotated(i).blocks\<close> the catalog returns for a rotation index.\<close>

definition offsets :: "tetromino \<Rightarrow> int \<Rightarrow> error + coordinate list" where
  "offsets t i = (case rotated t i of Inl e \<Rightarrow> Inl e | Inr s \<Rightarrow> blocks s)"

text \<open>The score list as \<^verbatim>\<open>self._data.get("scores", [])\<close> reads it.\<close>

definition score_list :: "profile_manager \<Rightarrow> score_entry list" where
  "score_list pm = (case data_scores pm of None \<Rightarrow> [] | Some es \<Rightarrow> es)"

text \<open>
  The number of lines that locking the active piece of \<open>g\<close> clears: the value
  \<^verbatim>\<open>Game.lock_piece\<close> passes to \<^verbatim>\<open>record_line_clear\<close>, when it gets that far.
\<close>

definition lock_cleared_lines :: "game \<Rightarrow> int option" where
  "lock_cleared_lines g =
     (case active g of
        None \<Rightarrow> None
      | Some a \<Rightarrow>
          (case ActivePiece_blocks a of
             Inl e \<Rightarrow> None
           | Inr bs \<Rightarrow>
               (case Board_lock_piece (board g) bs (name (tetromino (state a))) of
                  (Inl e, b1) \<Rightarrow> None
                | (Inr u, b1) \<Rightarrow> Some (fst (Board_clear_full_lines b1)))))"

text \<open>
  The states a game goes through: a fresh \<^verbatim>\<open>Game\<close>, then any of its operations,
  each applied to the state the one before left, a raise included. A hard drop
  that never returns leaves no state.
\<close>

datatype operation =
    Start "string option"
  | Move int int
  | Rotate bool
  | Tick
  | Hard_drop
  | Lock_piece
  | Finalize string

fun apply_operation :: "game \<Rightarrow> operation \<Rightarrow> game option" where
  "apply_operation g (Start profile) = Some (snd (Game_start g profile))"
| "apply_operation g (Move dx dy) = Some (snd (Game_move g dx dy))"
| "apply_operation g (Rotate clockwise) = Some (snd (Game_rotate g clockwise))"
| "apply_operation g Tick = Some (snd (Game_tick g))"
| "apply_operation g Hard_drop = map_option snd (Game_hard_drop g)"
| "apply_operation g Lock_piece = Some (snd (Game_lock_piece g))"
| "apply_operation g (Finalize now) = Some (snd (Game_finalize g now))"

fun run_operations :: "game \<Rightarrow> operation list \<Rightarrow> game option" where
  "run_operations g [] = Some g"
| "run_operations g (c # cs) =
     (case apply_operation g c of None \<Rightarrow> None | Some g' \<Rightarrow> run_operations g' cs)"

text \<open>
  A board as the constructor builds it and the board operations keep it:
  \<open>height\<close> rows of \<open>width\<close> cells (none for a negative dimension).
\<close>

definition board_wf :: "board \<Rightarrow> bool" where
  "board_wf b \<longleftrightarrow>
     length (grid b) = nat (height b) \<and> (\<forall>row \<in> set (grid b). length row = nat (width b))"

text \<open>The score a call of \<^verbatim>\<open>hard_drop\<close> leaves, when the call returns.\<close>

definition final_score :: "((error + unit) \<times> game) option \<Rightarrow> int option" where
  "final_score res = map_option (\<lambda>(r, g). score (score_manager g)) res"

text \<open>
  What the loop of \<^verbatim>\<open>hard_drop\<close> guarantees when it returns \<open>y\<close> from the game
  \<open>g\<close> and the count \<open>n\<close>: the board and \<open>game_over\<close> are kept, a piece is active
  after it exactly when one was before, and a returned distance \<open>d\<close> is at least
  \<open>n\<close> with the score raised by \<open>d - n\<close>, one point for each step.
\<close>

definition hard_drop_loop_post :: "game \<Rightarrow> int \<Rightarrow> (error + int) \<times> game \<Rightarrow> bool" where
  "hard_drop_loop_post g n y \<longleftrightarrow>
     game_over (snd y) = game_over g \<and> board (snd y) = board g
     \<and> (active (snd y) = None \<longleftrightarrow> active g = None)
     \<and> (\<forall>d. fst y = Inr d \<longrightarrow> n \<le> d
           \<and> score_manager (snd y)
               = (score_manager g)\<lparr>score := score (score_manager g) + (d - n)\<rparr>)"

text \<open>The state invariant: a game that is over has no active piece.\<close>

definition piece_only_while_playing :: "game \<Rightarrow> bool" where
  "piece_only_while_playing g \<longleftrightarrow> (game_over g \<longrightarrow> active g = None)"

section \<open>A small game, used to run the definitions\<close>

text \<open>
  A board 4 wide and 3 high, the scripted pieces O, O, an empty store and a random
  source whose \<^verbatim>\<open>shuffle\<close> leaves the list as it is. \<open>game_started\<close> is the game
  after \<^verbatim>\<open>start()\<close>: the first O is active at origin (2, 0).
\<close>

definition empty_store :: profile_manager where
  "empty_store = \<lparr>data_active_profile = None, data_profiles = Map.empty, data_scores = Some []\<rparr>"

definition plain_rng :: py_random where
  "plain_rng = \<lparr>rng_state = 0, rng_shuffle = (\<lambda>st ts. (ts, st))\<rparr>"

definition game_fresh :: game where
  "game_fresh = Game_init (Some (Board_init 4 3)) (ScoreManager_init empty_store)
                  (Some [tetromino_O, tetromino_O]) plain_rng"

definition game_started :: game where
  "game_started = snd (Game_start game_fresh None)"

text \<open>The empty store after \<^verbatim>\<open>create_profile("Alice")\<close>.\<close>

definition store_alice :: profile_manager where
  "store_alice = snd (create_profile empty_store ''Alice'' ''2024-01-01T00:00:00Z'')"

text \<open>A board with two full rows, the second and the last.\<close>

definition board_example :: board where
  "board_example = \<lparr>width = 2, height = 4,
     grid = [[Some ''T'', None], [Some ''T'', Some ''T''], [None, Some ''I''], [Some ''O'', Some ''O'']]\<rparr>"

text \<open>The fresh small game with the cell (2, 0), at the top centre, occupied.\<close>

definition game_top_filled :: game where
  "game_top_filled = game_fresh\<lparr>board := (Board_init 4 3)\<lparr>grid :=
       [[None, None, Some ''X'', None], [None, None, None, None], [None, None, None, None]]\<rparr>\<rparr>"

text \<open>The started small game after one step down: the O piece at origin (2, 1).\<close>

definition game_dropped :: game where
  "game_dropped = snd (Game_move game_started 0 1)"

section \<open>The piece catalog\<close>

lemma py_index_in_range:
  "0 \<le> i \<Longrightarrow> i < int (length xs) \<Longrightarrow> py_index xs i = Inr (nat i)"
  by (simp add: py_index_def Let_def)

lemma offsets_ok:
  "length (rotations t) \<noteq> 0 \<Longrightarrow>
     offsets t i = Inr (rotations t ! nat (i mod int (length (rotations t))))"
  by (simp add: offsets_def rotated_def blocks_def py_getitem_def py_index_in_range)

lemma catalog_cases:
  "t \<in> set ALL_TETROMINOES \<Longrightarrow>
     t = tetromino_I \<or> t = tetromino_O \<or> t = tetromino_T \<or> t = tetromino_S
   \<or> t = tetromino_Z \<or> t = tetromino_J \<or> t = tetromino_L"
  unfolding ALL_TETROMINOES_def by (simp only: set_simps insert_iff empty_iff) blast

lemma rotations_I:
  "rotations tetromino_I = [[(-2, 0), (-1, 0), (0, 0), (1, 0)], [(0, -1), (0, 0), (0, 1), (0, 2)]]"
  by (simp add: tetromino_I_def)

lemma rotations_O: "rotations tetromino_O = [[(0, 0), (1, 0), (0, 1), (1, 1)]]"
  by (simp add: tetromino_O_def)

lemma rotations_T:
  "rotations tetromino_T = [[(-1, 0), (0, 0), (1, 0), (0, 1)], [(0, -1), (0, 0), (1, 0), (0, 1)],
                            [(0, -1), (-1, 0), (0, 0), (1, 0)], [(0, -1), (-1, 0), (0, 0), (0, 1)]]"
  by (simp add: tetromino_T_def)

lemma rotations_S:
  "rotations tetromino_S = [[(0, 0), (1, 0), (-1, 1), (0, 1)], [(0, -1), (0, 0), (1, 0), (1, 1)]]"
  by (simp add: tetromino_S_def)

lemma rotations_Z:
  "rotations tetromino_Z = [[(-1, 0), (0, 0), (0, 1), (1, 1)], [(1, -1), (0, 0), (1, 0), (0, 1)]]"
  by (simp add: tetromino_Z_def)

lemma rotations_J:
  "rotations tetromino_J = [[(-1, 0), (0, 0), (1, 0), (-1, 1)], [(0, -1), (0, 0), (0, 1), (1, -1)],
                            [(1, -1), (-1, 0), (0, 0), (1, 0)], [(-1, 1), (0, -1), (0, 0), (0, 1)]]"
  by (simp add: tetromino_J_def)

lemma rotations_L:
  "rotations tetromino_L = [[(-1, 0), (0, 0), (1, 0), (1, 1)], [(0, -1), (0, 0), (0, 1), (1, 1)],
                            [(-1, -1), (-1, 0), (0, 0), (1, 0)], [(-1, -1), (0, -1), (0, 0), (0, 1)]]"
  by (simp add: tetromino_L_def)

lemmas catalog_rotations =
  rotations_I rotations_O rotations_T rotations_S rotations_Z rotations_J rotations_L

lemma catalog_state_count:
  assumes "t \<in> set ALL_TETROMINOES"
  shows "length (rotations t) = 1 \<or> length (rotations t) = 2 \<or> length (rotations t) = 4"
  using catalog_cases [OF assms] by (elim disjE) (simp_all add: catalog_rotations)

lemma catalog_four_blocks:
  assumes "t \<in> set ALL_TETROMINOES"
  shows "\<forall>bs \<in> set (rotations t). length bs = 4"
  using catalog_cases [OF assms] by (elim disjE) (simp_all add: catalog_rotations)

lemma mod_plus_four:
  assumes "n = 1 \<or> n = 2 \<or> n = 4"
  shows "(i + 4) mod (n::int) = i mod n"
proof -
  have "(i + 4) mod 1 = i mod (1::int)" by simp
  moreover have "(i + 4) mod 2 = i mod (2::int)" by presburger
  moreover have "(i + 4) mod 4 = i mod (4::int)" by simp
  ultimately show ?thesis using assms by blast
qed

text \<open>
  Claim C8. For every shape \<open>t\<close> of the seven-piece catalog and every integer
  rotation index \<open>i\<close>: the offsets returned for \<open>i\<close> are those returned for
  \<open>i\<close> modulo the number of rotation states of \<open>t\<close>; the lookup never fails and
  gives four offsets; the number of states is 1, 2 or 4, so the offsets for
  \<open>i + 4\<close> are those for \<open>i\<close>; and the O piece has exactly one rotation state, so
  every rotation of it is the state of index 0.
\<close>

theorem catalog_rotation_mod:
  "\<forall>t \<in> set ALL_TETROMINOES. \<forall>i.
      offsets t i = offsets t (i mod int (length (rotations t)))
    \<and> (\<exists>bs. offsets t i = Inr bs \<and> length bs = 4)
    \<and> length (rotations t) \<in> {1, 2, 4}
    \<and> offsets t (i + 4) = offsets t i
    \<and> length (rotations tetromino_O) = 1
    \<and> rotated tetromino_O i = rotated tetromino_O 0"
proof (intro ballI allI)
  fix t i
  assume t: "t \<in> set ALL_TETROMINOES"
  let ?n = "int (length (rotations t))"
  from catalog_state_count [OF t]
  have n: "?n = 1 \<or> ?n = 2 \<or> ?n = 4" by auto
  then have nz: "length (rotations t) \<noteq> 0" by auto
  have pos: "0 \<le> i mod ?n" "i mod ?n < ?n" using n by auto
  have a: "offsets t i = offsets t (i mod ?n)"
    using nz by (simp add: offsets_ok)
  have "nat (i mod ?n) < length (rotations t)" using pos by linarith
  then have "rotations t ! nat (i mod ?n) \<in> set (rotations t)" by simp
  then have "length (rotations t ! nat (i mod ?n)) = 4"
    using catalog_four_blocks [OF t] by blast
  then have b: "\<exists>bs. offsets t i = Inr bs \<and> length bs = 4"
    using nz by (simp add: offsets_ok)
  have c: "length (rotations t) \<in> {1, 2, 4}" using catalog_state_count [OF t] by auto
  have d: "offsets t (i + 4) = offsets t i"
    using nz mod_plus_four [OF n, of i] by (simp add: offsets_ok)
  have e: "length (rotations tetromino_O) = 1" by (simp add: rotations_O)
  have f: "rotated tetromino_O i = rotated tetromino_O 0"
    by (simp add: rotated_def rotations_O)
  from a b c d e f
  show "offsets t i = offsets t (i mod ?n)
    \<and> (\<exists>bs. offsets t i = Inr bs \<and> length bs = 4)
    \<and> length (rotations t) \<in> {1, 2, 4}
    \<and> offsets t (i + 4) = offsets t i
    \<and> length (rotations tetromino_O) = 1
    \<and> rotated tetromino_O i = rotated tetromino_O 0" by blast
qed

theorem catalog_rotation_mod_witness:
  "tetromino_S \<in> set ALL_TETROMINOES
   \<and> offsets tetromino_S 5 = offsets tetromino_S 1
   \<and> offsets tetromino_S 5 = Inr [(0, -1), (0, 0), (1, 0), (1, 1)]
   \<and> offsets tetromino_S 9 = offsets tetromino_S 5"
proof -
  have m: "tetromino_S \<in> set ALL_TETROMINOES" by (simp add: ALL_TETROMINOES_def)
  have l: "int (length (rotations tetromino_S)) = 2" by (simp add: rotations_S)
  from catalog_rotation_mod m
  have "offsets tetromino_S 5 = offsets tetromino_S (5 mod int (length (rotations tetromino_S)))
        \<and> offsets tetromino_S (5 + 4) = offsets tetromino_S 5"
    by blast
  moreover have "offsets tetromino_S 1 = Inr [(0, -1), (0, 0), (1, 0), (1, 1)]"
    by (simp add: offsets_ok rotations_S)
  ultimately show ?thesis using m l by simp
qed

section \<open>The score engine\<close>

text \<open>
  Claim C3. \<^verbatim>\<open>record_line_clear(n)\<close>: for \<open>n \<le> 0\<close> the gain is 0, the streak is
  reset to 0 and nothing else changes; for \<open>n \<ge> 1\<close> the gain is the base
  (100, 300, 500, 800 for 1, 2, 3, 4 lines, \<open>n * 100\<close> otherwise) plus the streak
  before the call times 50, the streak grows by 1, the total of lines by \<open>n\<close> and
  the score by the gain. On a fresh score engine the calls with 1, 2 and 0 lines
  gain 100, 350 and 0 and leave the score 450 and the streak 0.
\<close>

theorem record_line_clear_gain:
  "(n \<le> 0 \<longrightarrow> record_line_clear sm n = (0, sm\<lparr>combo_streak := 0\<rparr>))
   \<and> (1 \<le> n \<longrightarrow>
        (\<exists>sm'. record_line_clear sm n =
                 ((if n = 1 then 100 else if n = 2 then 300 else if n = 3 then 500
                   else if n = 4 then 800 else n * 100) + combo_streak sm * 50, sm')
              \<and> combo_streak sm' = combo_streak sm + 1
              \<and> total_lines sm' = total_lines sm + n
              \<and> score sm' = score sm + fst (record_line_clear sm n)))
   \<and> (let (gain1, sm1) = record_line_clear (ScoreManager_init pm) 1;
           (gain2, sm2) = record_line_clear sm1 2;
           (gain3, sm3) = record_line_clear sm2 0
       in gain1 = 100 \<and> gain2 = 350 \<and> gain3 = 0 \<and> score sm3 = 450 \<and> combo_streak sm3 = 0)"
  by (simp add: record_line_clear_def line_scores_def combo_bonus_def Let_def
        ScoreManager_init_def ScoreManager_reset_def)

theorem record_line_clear_gain_witness:
  "(1::int) \<le> 4
   \<and> fst (record_line_clear ((ScoreManager_init empty_store)\<lparr>combo_streak := 2\<rparr>) 4) = 900
   \<and> (0::int) \<le> 0
   \<and> record_line_clear ((ScoreManager_init empty_store)\<lparr>combo_streak := 2\<rparr>) 0
       = (0, (ScoreManager_init empty_store)\<lparr>combo_streak := 0\<rparr>)"
  using record_line_clear_gain [of 4 "(ScoreManager_init empty_store)\<lparr>combo_streak := 2\<rparr>" empty_store]
        record_line_clear_gain [of 0 "(ScoreManager_init empty_store)\<lparr>combo_streak := 2\<rparr>" empty_store]
  by auto

section \<open>The profile store\<close>

text \<open>
  Claim C9. \<^verbatim>\<open>record_game(profile_name, score, lines)\<close>: when the profile is
  absent it raises the unknown-profile error (ValueError) and the store, profiles
  and score list included, is unchanged; when the profile is present it returns,
  the profile has one more game played and the larger of its old best score and
  the new score, and the score list has exactly one more entry, at its end,
  carrying the profile name, the score and the lines.
\<close>

theorem record_game_effect:
  "(get_profile pm n = None \<longrightarrow> record_game pm n sc lns now = (Inl ValueError, pm))
   \<and> (\<forall>p. get_profile pm n = Some p \<longrightarrow>
        (\<exists>pm' p' e. record_game pm n sc lns now = (Inr (), pm')
            \<and> get_profile pm' n = Some p'
            \<and> games_played p' = games_played p + 1
            \<and> best_score p' = max (best_score p) sc
            \<and> score_list pm' = score_list pm @ [e]
            \<and> entry_profile e = n \<and> entry_score e = sc \<and> entry_lines e = lns))"
  by (simp add: record_game_def get_profile_def score_list_def Let_def max_def)

theorem record_game_effect_witness:
  "get_profile store_alice ''Bob'' = None
   \<and> record_game store_alice ''Bob'' 10 1 ''t'' = (Inl ValueError, store_alice)
   \<and> (\<exists>p. get_profile store_alice ''Alice'' = Some p)
   \<and> fst (record_game store_alice ''Alice'' 1234 4 ''t'') = Inr ()
   \<and> map_option games_played (get_profile (snd (record_game store_alice ''Alice'' 1234 4 ''t'')) ''Alice'') = Some 1
   \<and> map_option best_score (get_profile (snd (record_game store_alice ''Alice'' 1234 4 ''t'')) ''Alice'') = Some 1234
   \<and> length (score_list (snd (record_game store_alice ''Alice'' 1234 4 ''t''))) = 1"
proof -
  have a: "get_profile store_alice ''Bob'' = None"
    by (simp add: store_alice_def create_profile_def empty_store_def get_profile_def Let_def)
  have b: "get_profile store_alice ''Alice'' =
      Some \<lparr>p_name = ''Alice'', created_at = ''2024-01-01T00:00:00Z'', last_played = None,
            games_played = 0, best_score = 0\<rparr>"
    by (simp add: store_alice_def create_profile_def empty_store_def get_profile_def Let_def)
  have c: "score_list store_alice = []"
    by (simp add: store_alice_def create_profile_def empty_store_def score_list_def Let_def)
  from record_game_effect [of store_alice "''Bob''" 10 1 "''t''"] a
  have d: "record_game store_alice ''Bob'' 10 1 ''t'' = (Inl ValueError, store_alice)" by blast
  from record_game_effect [of store_alice "''Alice''" 1234 4 "''t''"] b
  obtain pm' p' e where e: "record_game store_alice ''Alice'' 1234 4 ''t'' = (Inr (), pm')"
      "get_profile pm' ''Alice'' = Some p'" "games_played p' = 0 + 1"
      "best_score p' = max 0 1234" "score_list pm' = score_list store_alice @ [e]"
    by auto
  show ?thesis using a b c d e by simp
qed

text \<open>
  Claim C10. \<^verbatim>\<open>create_profile(name)\<close>: when the name is taken it raises and the
  store is unchanged; otherwise it returns the new profile, adds it to the
  profiles under its name, and also overwrites the store's \<^verbatim>\<open>active_profile\<close>
  with the name. The score list is unchanged.
\<close>

theorem create_profile_sets_active:
  "(n \<in> dom (data_profiles pm) \<longrightarrow> create_profile pm n now = (Inl ValueError, pm))
   \<and> (n \<notin> dom (data_profiles pm) \<longrightarrow>
        (\<exists>p pm'. create_profile pm n now = (Inr p, pm')
           \<and> p_name p = n
           \<and> data_profiles pm' = (data_profiles pm)(n \<mapsto> p)
           \<and> data_active_profile pm' = Some n
           \<and> data_scores pm' = data_scores pm))"
  by (auto simp: create_profile_def Let_def)

theorem create_profile_sets_active_witness:
  "''Alice'' \<notin> dom (data_profiles empty_store)
   \<and> data_active_profile empty_store = None
   \<and> data_active_profile (snd (create_profile empty_store ''Alice'' ''t'')) = Some ''Alice''
   \<and> ''Alice'' \<in> dom (data_profiles store_alice)
   \<and> create_profile store_alice ''Alice'' ''t'' = (Inl ValueError, store_alice)"
proof -
  have a: "''Alice'' \<notin> dom (data_profiles empty_store)" by (simp add: empty_store_def)
  have b: "''Alice'' \<in> dom (data_profiles store_alice)"
    by (simp add: store_alice_def create_profile_def empty_store_def Let_def)
  have c: "data_active_profile empty_store = None" by (simp add: empty_store_def)
  from create_profile_sets_active [of "''Alice''" empty_store "''t''"] a
  have d: "data_active_profile (snd (create_profile empty_store ''Alice'' ''t'')) = Some ''Alice''"
    by auto
  from create_profile_sets_active [of "''Alice''" store_alice "''t''"] b
  have e: "create_profile store_alice ''Alice'' ''t'' = (Inl ValueError, store_alice)" by blast
  show ?thesis using a b c d e by simp
qed

section \<open>The game controller\<close>

text \<open>
  Claim C5. Whenever \<^verbatim>\<open>move(dx, dy)\<close> returns False, the game after the call
  is the game before it: board grid, active piece and score state are unchanged.
  It returns False when no piece is active, when the game is over, and when the
  board refuses the translated cells.
\<close>

theorem move_failure_unchanged:
  "(Game_move g dx dy = (Inr False, g') \<longrightarrow>
      g' = g \<and> grid (board g') = grid (board g) \<and> active g' = active g
      \<and> score_manager g' = score_manager g)
   \<and> (active g = None \<or> game_over g \<longrightarrow> Game_move g dx dy = (Inr False, g))
   \<and> (\<forall>a bs. active g = Some a \<and> blocks (state a) = Inr bs
          \<and> Board_can_place (board g)
               (map (\<lambda>(bx, by). (fst (origin a) + dx + bx, snd (origin a) + dy + by)) bs) = Inr False
        \<longrightarrow> Game_move g dx dy = (Inr False, g))"
proof -
  have a: "Game_move g dx dy = (Inr False, g') \<Longrightarrow> g' = g"
    by (auto simp: Game_move_def Let_def split: option.splits sum.splits if_splits)
  have b: "active g = None \<or> game_over g \<Longrightarrow> Game_move g dx dy = (Inr False, g)"
    by (auto simp: Game_move_def Let_def split: option.splits)
  have c: "\<And>a bs. active g = Some a \<Longrightarrow> blocks (state a) = Inr bs \<Longrightarrow>
      Board_can_place (board g)
        (map (\<lambda>(bx, by). (fst (origin a) + dx + bx, snd (origin a) + dy + by)) bs) = Inr False
      \<Longrightarrow> Game_move g dx dy = (Inr False, g)"
    by (simp add: Game_move_def Let_def)
  show ?thesis using a b c by blast
qed

theorem move_failure_unchanged_witness:
  "Game_move game_started (- 1) 0 = (Inr True, snd (Game_move game_started (- 1) 0))
   \<and> fst (Game_move game_started 1 0) = Inr False
   \<and> Game_move game_started 1 0 = (Inr False, game_started)"
proof -
  have a: "fst (Game_move game_started 1 0) = Inr False" by code_simp
  have b: "fst (Game_move game_started (- 1) 0) = Inr True" by code_simp
  from a have "Game_move game_started 1 0 = (Inr False, snd (Game_move game_started 1 0))"
    by (metis prod.collapse)
  with move_failure_unchanged [of game_started 1 0 "snd (Game_move game_started 1 0)"]
  have "snd (Game_move game_started 1 0) = game_started" by blast
  with a b show ?thesis by (metis prod.collapse)
qed

section \<open>The board\<close>

lemma row_has_empty_iff: "row_has_empty row \<longleftrightarrow> None \<in> set row"
  by (auto simp: row_has_empty_def list_ex_iff)

lemma filter_split_length:
  "int (length (filter (\<lambda>x. \<not> P x) xs)) = int (length xs) - int (length (filter P xs))"
  using sum_length_filter_compl [of P xs] by linarith

text \<open>
  Claim C4. On a board whose grid has \<open>height\<close> rows, as the constructor builds
  it, \<^verbatim>\<open>clear_full_lines\<close> returns the number of rows with no empty cell; the
  new grid is that many all-empty rows of \<open>width\<close> cells followed by the rows that
  had an empty cell, in their order; width, height and the number of rows are
  kept; and when no row is full it returns 0 and the board is unchanged.
\<close>

theorem clear_full_lines_effect:
  "int (length (grid b)) = height b \<longrightarrow>
     (\<exists>b'. Board_clear_full_lines b = (int (length (filter (\<lambda>row. None \<notin> set row) (grid b))), b')
        \<and> grid b' = replicate (length (filter (\<lambda>row. None \<notin> set row) (grid b)))
                      (replicate (nat (width b)) None)
                    @ filter (\<lambda>row. None \<in> set row) (grid b)
        \<and> width b' = width b \<and> height b' = height b
        \<and> int (length (grid b')) = height b'
        \<and> (filter (\<lambda>row. None \<notin> set row) (grid b) = [] \<longrightarrow>
             Board_clear_full_lines b = (0, b)))"
proof
  assume h: "int (length (grid b)) = height b"
  let ?full = "filter (\<lambda>row. None \<notin> set row) (grid b)"
  let ?kept = "filter (\<lambda>row. None \<in> set row) (grid b)"
  have "row_has_empty = (\<lambda>row. None \<in> set row)"
    by (rule ext) (simp add: row_has_empty_iff)
  then have k: "filter row_has_empty (grid b) = ?kept" by simp
  have n: "height b - int (length ?kept) = int (length ?full)"
    using filter_split_length [of "\<lambda>row. None \<in> set row" "grid b"] h by simp
  have t: "length ?full + length ?kept = length (grid b)"
    using sum_length_filter_compl [of "\<lambda>row. None \<in> set row" "grid b"] by simp
  have z: "?full = [] \<Longrightarrow> ?kept = grid b"
  proof -
    assume "?full = []"
    then have "\<forall>row \<in> set (grid b). None \<in> set row" by (simp add: filter_empty_conv)
    then show "?kept = grid b" by simp
  qed
  have u: "Board_clear_full_lines b =
      (if int (length ?full) \<noteq> 0
       then (int (length ?full),
             b\<lparr>grid := replicate (length ?full) (replicate (nat (width b)) None) @ ?kept\<rparr>)
       else (int (length ?full), b))"
    unfolding Board_clear_full_lines_def Let_def k n by simp
  show "\<exists>b'. Board_clear_full_lines b = (int (length ?full), b')
        \<and> grid b' = replicate (length ?full) (replicate (nat (width b)) None) @ ?kept
        \<and> width b' = width b \<and> height b' = height b
        \<and> int (length (grid b')) = height b'
        \<and> (?full = [] \<longrightarrow> Board_clear_full_lines b = (0, b))"
  proof (cases "?full = []")
    case True
    then have "Board_clear_full_lines b = (0, b)" using u by simp
    then show ?thesis using True z h by simp
  next
    case False
    then have "Board_clear_full_lines b =
        (int (length ?full),
         b\<lparr>grid := replicate (length ?full) (replicate (nat (width b)) None) @ ?kept\<rparr>)"
      using u by simp
    then show ?thesis using False t h by simp
  qed
qed

theorem clear_full_lines_effect_witness:
  "int (length (grid board_example)) = height board_example
   \<and> fst (Board_clear_full_lines board_example) = 2
   \<and> grid (snd (Board_clear_full_lines board_example))
       = [[None, None], [None, None], [Some ''T'', None], [None, Some ''I'']]
   \<and> int (length (grid (Board_init 3 2))) = height (Board_init 3 2)
   \<and> Board_clear_full_lines (Board_init 3 2) = (0, Board_init 3 2)"
proof -
  have a: "int (length (grid board_example)) = height board_example"
    by (simp add: board_example_def)
  have b: "int (length (grid (Board_init 3 2))) = height (Board_init 3 2)"
    by (simp add: Board_init_def)
  have c: "filter (\<lambda>row. None \<notin> set row) (grid (Board_init 3 2)) = []"
    by (simp add: Board_init_def)
  have d: "filter (\<lambda>row. None \<notin> set row) (grid board_example) = [[Some ''T'', Some ''T''], [Some ''O'', Some ''O'']]"
    "filter (\<lambda>row. None \<in> set row) (grid board_example) = [[Some ''T'', None], [None, Some ''I'']]"
    by (simp_all add: board_example_def)
  from clear_full_lines_effect [of "Board_init 3 2"] b c
  have e: "Board_clear_full_lines (Board_init 3 2) = (0, Board_init 3 2)" by blast
  from clear_full_lines_effect [of board_example] a
  obtain b' where f:
     "Board_clear_full_lines board_example
        = (int (length (filter (\<lambda>row. None \<notin> set row) (grid board_example))), b')"
     "grid b' = replicate (length (filter (\<lambda>row. None \<notin> set row) (grid board_example)))
                  (replicate (nat (width board_example)) None)
                @ filter (\<lambda>row. None \<in> set row) (grid board_example)"
    by blast
  have w: "replicate (nat (width board_example)) None = [None, None]"
    by (simp add: board_example_def numeral_2_eq_2)
  show ?thesis using a b e f by (simp add: d w)
qed

section \<open>Spawning\<close>

lemma grid_get_wf:
  assumes "board_wf b" "0 \<le> x" "x < width b" "0 \<le> y" "y < height b"
  shows "grid_get (grid b) y x = Inr (grid b ! nat y ! nat x)"
proof -
  have y: "y < int (length (grid b))" using assms by (simp add: board_wf_def)
  then have "grid b ! nat y \<in> set (grid b)" using assms(4) by simp
  then have x: "x < int (length (grid b ! nat y))" using assms by (simp add: board_wf_def)
  show ?thesis
    using assms(2,4) x y by (simp add: grid_get_def py_getitem_def py_index_in_range)
qed

lemma can_place_wf:
  assumes "board_wf b"
  shows "Board_can_place b bs =
     Inr (\<forall>(x, y) \<in> set bs. 0 \<le> x \<and> x < width b \<and> y < height b
            \<and> (0 \<le> y \<longrightarrow> grid b ! nat y ! nat x = None))"
proof (induction bs)
  case Nil
  show ?case by simp
next
  case (Cons c bs)
  obtain x y where c: "c = (x, y)" by (cases c)
  show ?case
  proof (cases "0 \<le> x \<and> x < width b \<and> y < height b \<and> 0 \<le> y")
    case True
    then show ?thesis using Cons c grid_get_wf [OF assms, of x y] by auto
  next
    case False
    then show ?thesis using Cons c by auto
  qed
qed

lemma can_place_occupied:
  assumes "board_wf b" "(x, y) \<in> set bs" "0 \<le> x" "x < width b" "0 \<le> y" "y < height b"
    "grid b ! nat y ! nat x \<noteq> None"
  shows "Board_can_place b bs = Inr False"
proof -
  have "\<not> (\<forall>(x, y) \<in> set bs. 0 \<le> x \<and> x < width b \<and> y < height b
            \<and> (0 \<le> y \<longrightarrow> grid b ! nat y ! nat x = None))"
  proof
    assume "\<forall>(x, y) \<in> set bs. 0 \<le> x \<and> x < width b \<and> y < height b
            \<and> (0 \<le> y \<longrightarrow> grid b ! nat y ! nat x = None)"
    from bspec [OF this assms(2)] show False using assms(5,7) by simp
  qed
  then show ?thesis using can_place_wf [OF assms(1), of bs] by simp
qed

lemma next_tetromino_frame:
  "board (snd (next_tetromino g)) = board g
   \<and> active (snd (next_tetromino g)) = active g
   \<and> game_over (snd (next_tetromino g)) = game_over g
   \<and> score_manager (snd (next_tetromino g)) = score_manager g"
  by (simp add: next_tetromino_def draw_from_sequence_def draw_from_bag_def Let_def
        split: option.splits list.splits prod.splits)

lemma rotated_zero:
  "rotated t 0 = Inr st \<Longrightarrow> st = \<lparr>tetromino = t, rotation_index = 0\<rparr>"
  by (auto simp: rotated_def split: if_splits)

lemma spawn_unfold:
  assumes "next_tetromino g = (Inr t, g1)" "rotated t 0 = Inr st"
    "ActivePiece_blocks \<lparr>state = st, origin = (width (board g) div 2, 0)\<rparr> = Inr bs"
    "Board_can_place (board g) bs = Inr ok"
  shows "spawn_next_piece g =
     (if \<not> ok then (Inr (), g1\<lparr>game_over := True, active := None\<rparr>)
      else (Inr (), g1\<lparr>active := Some \<lparr>state = st, origin = (width (board g) div 2, 0)\<rparr>\<rparr>))"
proof -
  have "board g1 = board g" using next_tetromino_frame [of g] assms(1) by simp
  then show ?thesis using assms by (simp add: spawn_next_piece_def Let_def)
qed

lemma spawn_board: "board (snd (spawn_next_piece g)) = board g"
proof -
  obtain r g1 where n: "next_tetromino g = (r, g1)" by (cases "next_tetromino g")
  then have "board g1 = board g" using next_tetromino_frame [of g] by simp
  then show ?thesis using n
    by (simp add: spawn_next_piece_def Let_def split: sum.splits)
qed

text \<open>
  Claim C6. \<^verbatim>\<open>_spawn_next_piece\<close> never changes the board. When the piece
  supply is exhausted the game is over with no active piece. When a shape \<open>t\<close>
  is drawn, the piece built is its state of rotation index 0 at the origin
  \<open>(width div 2, 0)\<close>; if the board refuses its cells the game is over with no
  active piece, and if it accepts them that piece is the active piece and
  \<open>game_over\<close> is as before. In particular, on a well-formed board, a cell of the
  piece that is occupied makes the spawn end the game with no active piece.
\<close>

theorem spawn_next_piece_effect:
  "board (snd (spawn_next_piece g)) = board g
   \<and> (fst (next_tetromino g) = Inl StopIteration \<longrightarrow>
        fst (spawn_next_piece g) = Inr ()
        \<and> game_over (snd (spawn_next_piece g)) \<and> active (snd (spawn_next_piece g)) = None)
   \<and> (fst (next_tetromino g) = Inr t \<and> rotated t 0 = Inr st
        \<and> ActivePiece_blocks \<lparr>state = st, origin = (width (board g) div 2, 0)\<rparr> = Inr bs
        \<longrightarrow>
          st = \<lparr>tetromino = t, rotation_index = 0\<rparr>
        \<and> (Board_can_place (board g) bs = Inr False \<longrightarrow>
              fst (spawn_next_piece g) = Inr ()
              \<and> game_over (snd (spawn_next_piece g))
              \<and> active (snd (spawn_next_piece g)) = None)
        \<and> (Board_can_place (board g) bs = Inr True \<longrightarrow>
              fst (spawn_next_piece g) = Inr ()
              \<and> active (snd (spawn_next_piece g))
                  = Some \<lparr>state = st, origin = (width (board g) div 2, 0)\<rparr>
              \<and> game_over (snd (spawn_next_piece g)) = game_over g)
        \<and> (board_wf (board g)
            \<and> (\<exists>(x, y) \<in> set bs. 0 \<le> x \<and> x < width (board g) \<and> 0 \<le> y \<and> y < height (board g)
                   \<and> grid (board g) ! nat y ! nat x \<noteq> None) \<longrightarrow>
              fst (spawn_next_piece g) = Inr ()
              \<and> game_over (snd (spawn_next_piece g))
              \<and> active (snd (spawn_next_piece g)) = None))"
proof (intro conjI impI)
  show "board (snd (spawn_next_piece g)) = board g" by (rule spawn_board)
next
  assume e: "fst (next_tetromino g) = Inl StopIteration"
  obtain r g1 where "next_tetromino g = (r, g1)" by (cases "next_tetromino g")
  with e have n: "next_tetromino g = (Inl StopIteration, g1)" by simp
  show "fst (spawn_next_piece g) = Inr ()"
    by (simp add: spawn_next_piece_def) (simp add: n)
  show "game_over (snd (spawn_next_piece g))"
    by (simp add: spawn_next_piece_def) (simp add: n)
  show "active (snd (spawn_next_piece g)) = None"
    by (simp add: spawn_next_piece_def) (simp add: n)
next
  assume h: "fst (next_tetromino g) = Inr t \<and> rotated t 0 = Inr st
        \<and> ActivePiece_blocks \<lparr>state = st, origin = (width (board g) div 2, 0)\<rparr> = Inr bs"
  obtain r g1 where "next_tetromino g = (r, g1)" by (cases "next_tetromino g")
  with h have n: "next_tetromino g = (Inr t, g1)" by simp
  have f: "game_over g1 = game_over g"
    using next_tetromino_frame [of g] n by simp
  from h have h2: "rotated t 0 = Inr st"
    and h3: "ActivePiece_blocks \<lparr>state = st, origin = (width (board g) div 2, 0)\<rparr> = Inr bs"
    by simp_all
  note u = spawn_unfold [OF n h2 h3]
  show "st = \<lparr>tetromino = t, rotation_index = 0\<rparr>" using h2 by (rule rotated_zero)
  { assume c: "Board_can_place (board g) bs = Inr False"
    show "fst (spawn_next_piece g) = Inr ()" using u [OF c] by simp
    show "game_over (snd (spawn_next_piece g))" using u [OF c] by simp
    show "active (snd (spawn_next_piece g)) = None" using u [OF c] by simp }
  { assume c: "Board_can_place (board g) bs = Inr True"
    show "fst (spawn_next_piece g) = Inr ()" using u [OF c] by simp
    show "active (snd (spawn_next_piece g))
            = Some \<lparr>state = st, origin = (width (board g) div 2, 0)\<rparr>" using u [OF c] by simp
    show "game_over (snd (spawn_next_piece g)) = game_over g" using u [OF c] f by simp }
  { assume w: "board_wf (board g)
            \<and> (\<exists>(x, y) \<in> set bs. 0 \<le> x \<and> x < width (board g) \<and> 0 \<le> y \<and> y < height (board g)
                   \<and> grid (board g) ! nat y ! nat x \<noteq> None)"
    then obtain x y where o: "(x, y) \<in> set bs" "0 \<le> x" "x < width (board g)" "0 \<le> y"
        "y < height (board g)" "grid (board g) ! nat y ! nat x \<noteq> None"
      by auto
    from w have wf: "board_wf (board g)" by simp
    have c: "Board_can_place (board g) bs = Inr False"
      by (rule can_place_occupied [OF wf o])
    show "fst (spawn_next_piece g) = Inr ()" using u [OF c] by simp
    show "game_over (snd (spawn_next_piece g))" using u [OF c] by simp
    show "active (snd (spawn_next_piece g)) = None" using u [OF c] by simp }
qed

theorem spawn_next_piece_effect_witness:
  "fst (next_tetromino game_top_filled) = Inr tetromino_O
   \<and> rotated tetromino_O 0 = Inr \<lparr>tetromino = tetromino_O, rotation_index = 0\<rparr>
   \<and> ActivePiece_blocks \<lparr>state = \<lparr>tetromino = tetromino_O, rotation_index = 0\<rparr>,
                          origin = (width (board game_top_filled) div 2, 0)\<rparr>
        = Inr [(2, 0), (3, 0), (2, 1), (3, 1)]
   \<and> Board_can_place (board game_top_filled) [(2, 0), (3, 0), (2, 1), (3, 1)] = Inr False
   \<and> fst (spawn_next_piece game_top_filled) = Inr ()
   \<and> game_over (snd (spawn_next_piece game_top_filled))
   \<and> active (snd (spawn_next_piece game_top_filled)) = None
   \<and> board (snd (spawn_next_piece game_top_filled)) = board game_top_filled
   \<and> fst (next_tetromino game_fresh) = Inr tetromino_O
   \<and> Board_can_place (board game_fresh) [(2, 0), (3, 0), (2, 1), (3, 1)] = Inr True
   \<and> active (snd (spawn_next_piece game_fresh))
        = Some \<lparr>state = \<lparr>tetromino = tetromino_O, rotation_index = 0\<rparr>, origin = (2, 0)\<rparr>
   \<and> \<not> game_over (snd (spawn_next_piece game_fresh))"
proof -
  let ?st = "\<lparr>tetromino = tetromino_O, rotation_index = 0\<rparr>"
  let ?bs = "[(2, 0), (3, 0), (2, 1), (3, 1)] :: coordinate list"
  have a: "fst (next_tetromino game_top_filled) = Inr tetromino_O" by code_simp
  have b: "rotated tetromino_O 0 = Inr ?st" by code_simp
  have c: "ActivePiece_blocks \<lparr>state = ?st, origin = (width (board game_top_filled) div 2, 0)\<rparr>
             = Inr ?bs" by code_simp
  have d: "Board_can_place (board game_top_filled) ?bs = Inr False" by code_simp
  have a': "fst (next_tetromino game_fresh) = Inr tetromino_O" by code_simp
  have c': "ActivePiece_blocks \<lparr>state = ?st, origin = (width (board game_fresh) div 2, 0)\<rparr>
             = Inr ?bs" by code_simp
  have d': "Board_can_place (board game_fresh) ?bs = Inr True" by code_simp
  have w: "width (board game_fresh) div 2 = 2" by code_simp
  have g: "\<not> game_over game_fresh" by code_simp
  from spawn_next_piece_effect [of game_top_filled tetromino_O ?st ?bs] a b c d
  have e: "fst (spawn_next_piece game_top_filled) = Inr ()
     \<and> game_over (snd (spawn_next_piece game_top_filled))
     \<and> active (snd (spawn_next_piece game_top_filled)) = None
     \<and> board (snd (spawn_next_piece game_top_filled)) = board game_top_filled"
    by simp
  from spawn_next_piece_effect [of game_fresh tetromino_O ?st ?bs] a' b c' d'
  have f: "active (snd (spawn_next_piece game_fresh))
        = Some \<lparr>state = ?st, origin = (width (board game_fresh) div 2, 0)\<rparr>
     \<and> game_over (snd (spawn_next_piece game_fresh)) = game_over game_fresh"
    by simp
  show ?thesis using a b c d e a' d' f g by (simp add: w)
qed

section \<open>Moves, gravity and the hard drop\<close>

lemma move_result:
  assumes "Game_move g dx dy = (r, g')"
  shows "(r = Inr True \<and> \<not> game_over g \<and> active g \<noteq> None \<and> active g' \<noteq> None
          \<and> game_over g' = game_over g \<and> board g' = board g
          \<and> score_manager g' = (if dy > 0 then add_soft_drop (score_manager g) 1 else score_manager g))
       \<or> (r \<noteq> Inr True \<and> g' = g)"
  using assms
  by (auto simp: Game_move_def Let_def split: option.splits sum.splits if_splits)

lemma move_down_moved:
  assumes "Game_move g 0 1 = (Inr True, g')"
  shows "\<not> game_over g" "active g \<noteq> None" "active g' \<noteq> None" "game_over g' = game_over g"
    "board g' = board g"
    "score_manager g' = (score_manager g)\<lparr>score := score (score_manager g) + 1\<rparr>"
  using move_result [OF assms] by (simp_all add: add_soft_drop_def soft_drop_bonus_def)

lemma move_not_moved:
  assumes "Game_move g dx dy = (r, g')" "r \<noteq> Inr True"
  shows "g' = g"
  using move_result [OF assms(1)] assms(2) by simp

lemma hard_drop_loop_result:
  assumes a: "hard_drop_loop g n = Some y"
  shows "hard_drop_loop_post g n y"
proof (rule hard_drop_loop.raw_induct [where P = hard_drop_loop_post, OF _ a])
  fix loop g n y
  assume ih: "\<And>g n y. loop g n = Some y \<Longrightarrow> hard_drop_loop_post g n y"
    and st: "(case Game_move g 0 1 of (Inl e, g') \<Rightarrow> Some (Inl e, g')
      | (Inr moved, g') \<Rightarrow>
          if moved then loop g' (n + 1)
          else Some (Inr n, g')) = Some y"
  obtain r g1 where m: "Game_move g 0 1 = (r, g1)" by (cases "Game_move g 0 1")
  show "hard_drop_loop_post g n y"
  proof (cases r)
    case (Inl e)
    then have "g1 = g" using move_not_moved [OF m] by simp
    then show ?thesis using st m Inl by (auto simp: hard_drop_loop_post_def)
  next
    case (Inr moved)
    show ?thesis
    proof (cases moved)
      case True
      with m Inr have mm: "Game_move g 0 1 = (Inr True, g1)" by simp
      have l: "loop g1 (n + 1) = Some y" using st mm by simp
      note f = move_down_moved [OF mm]
      show ?thesis using ih [OF l] f by (auto simp: hard_drop_loop_post_def)
    next
      case False
      then have "g1 = g" using move_not_moved [OF m] Inr by simp
      then show ?thesis using st m Inr False by (auto simp: hard_drop_loop_post_def)
    qed
  qed
qed

lemma spawn_score_manager: "score_manager (snd (spawn_next_piece g)) = score_manager g"
proof -
  obtain r g1 where n: "next_tetromino g = (r, g1)" by (cases "next_tetromino g")
  then have "score_manager g1 = score_manager g" using next_tetromino_frame [of g] by simp
  then show ?thesis using n
    by (simp add: spawn_next_piece_def Let_def split: sum.splits)
qed

lemma spawn_inv:
  assumes "\<not> game_over g"
  shows "piece_only_while_playing (snd (spawn_next_piece g))"
proof -
  obtain r g1 where n: "next_tetromino g = (r, g1)" by (cases "next_tetromino g")
  then have "game_over g1 = game_over g" using next_tetromino_frame [of g] by simp
  then show ?thesis using n assms
    by (simp add: spawn_next_piece_def Let_def piece_only_while_playing_def split: sum.splits)
qed

lemma lock_piece_unfold:
  assumes "active g = Some a" "ActivePiece_blocks a = Inr bs"
    "Board_lock_piece (board g) bs (name (tetromino (state a))) = (Inr u, b1)"
  shows "Game_lock_piece g =
     spawn_next_piece (g\<lparr>board := snd (Board_clear_full_lines b1),
        score_manager := snd (record_line_clear (score_manager g) (fst (Board_clear_full_lines b1))),
        active := None\<rparr>)"
  using assms by (simp add: Game_lock_piece_def Let_def split_beta)

lemma lock_piece_score:
  assumes "lock_cleared_lines g = Some l"
  shows "score_manager (snd (Game_lock_piece g)) = snd (record_line_clear (score_manager g) l)"
proof -
  from assms obtain a where a: "active g = Some a"
    by (cases "active g") (simp_all add: lock_cleared_lines_def)
  from assms a obtain bs where bs: "ActivePiece_blocks a = Inr bs"
    by (cases "ActivePiece_blocks a") (simp_all add: lock_cleared_lines_def)
  obtain r b1 where b1: "Board_lock_piece (board g) bs (name (tetromino (state a))) = (r, b1)"
    by (cases "Board_lock_piece (board g) bs (name (tetromino (state a)))")
  from assms a bs b1 obtain u where u: "r = Inr u"
    by (cases r) (simp_all add: lock_cleared_lines_def)
  from assms a bs b1 u have l: "l = fst (Board_clear_full_lines b1)"
    by (simp add: lock_cleared_lines_def)
  show ?thesis
    unfolding lock_piece_unfold [OF a bs b1 [unfolded u]] spawn_score_manager l by simp
qed

lemma lock_piece_inv:
  assumes "piece_only_while_playing g"
  shows "piece_only_while_playing (snd (Game_lock_piece g))"
proof (cases "active g")
  case None
  then show ?thesis using assms by (simp add: Game_lock_piece_def)
next
  case (Some a)
  then have no: "\<not> game_over g" using assms by (auto simp: piece_only_while_playing_def)
  show ?thesis
  proof (cases "ActivePiece_blocks a")
    case (Inl e)
    then show ?thesis using Some assms by (simp add: Game_lock_piece_def)
  next
    case (Inr bs)
    obtain r b1 where b1: "Board_lock_piece (board g) bs (name (tetromino (state a))) = (r, b1)"
      by (cases "Board_lock_piece (board g) bs (name (tetromino (state a)))")
    show ?thesis
    proof (cases r)
      case (Inl e)
      then show ?thesis using Some Inr b1 assms
        by (simp add: Game_lock_piece_def piece_only_while_playing_def)
    next
      case (Inr u)
      show ?thesis
        unfolding lock_piece_unfold [OF Some \<open>ActivePiece_blocks a = Inr bs\<close> b1 [unfolded Inr]]
        by (rule spawn_inv) (simp add: no)
    qed
  qed
qed

lemma move_inv:
  assumes "piece_only_while_playing g"
  shows "piece_only_while_playing (snd (Game_move g dx dy))"
proof -
  obtain r g' where m: "Game_move g dx dy = (r, g')" by (cases "Game_move g dx dy")
  from move_result [OF m] assms show ?thesis
    unfolding m by (auto simp: piece_only_while_playing_def)
qed

lemma rotate_inv:
  assumes "piece_only_while_playing g"
  shows "piece_only_while_playing (snd (Game_rotate g clockwise))"
  using assms
  by (auto simp: Game_rotate_def Let_def piece_only_while_playing_def
        split: option.splits sum.splits)

lemma tick_inv:
  assumes "piece_only_while_playing g"
  shows "piece_only_while_playing (snd (Game_tick g))"
proof (cases "active g = None \<or> game_over g")
  case True
  then show ?thesis using assms by (simp add: Game_tick_def)
next
  case False
  then have c: "(active g = None \<or> game_over g) = False" by simp
  obtain r g' where m: "Game_move g 0 1 = (r, g')" by (cases "Game_move g 0 1")
  have i: "piece_only_while_playing g'" using move_inv [OF assms, of 0 1] m by simp
  show ?thesis
  proof (cases r)
    case (Inl e)
    then show ?thesis unfolding Game_tick_def c m using i by simp
  next
    case (Inr moved)
    then show ?thesis unfolding Game_tick_def c m using i lock_piece_inv [OF i] by simp
  qed
qed

lemma start_inv:
  assumes "piece_only_while_playing g"
  shows "piece_only_while_playing (snd (Game_start g profile))"
proof -
  obtain r b' where b: "Board_reset (board g) = (r, b')" by (cases "Board_reset (board g)")
  show ?thesis
  proof (cases r)
    case (Inl e)
    then show ?thesis using b assms by (simp add: Game_start_def piece_only_while_playing_def)
  next
    case (Inr u)
    show ?thesis unfolding Game_start_def b Inr
      by (simp add: Let_def) (rule spawn_inv, simp)
  qed
qed

lemma finalize_inv:
  assumes "piece_only_while_playing g"
  shows "piece_only_while_playing (snd (Game_finalize g now))"
  using assms
  by (auto simp: Game_finalize_def piece_only_while_playing_def split: prod.splits sum.splits)

lemma hard_drop_unfold:
  assumes "active g \<noteq> None" "\<not> game_over g" "hard_drop_loop g 0 = Some (Inr d, g1)"
  shows "Game_hard_drop g =
     Some (Game_lock_piece (g1\<lparr>score_manager := add_hard_drop (score_manager g1) d\<rparr>))"
  using assms by (auto simp: Game_hard_drop_def)

lemma hard_drop_inv:
  assumes "piece_only_while_playing g" "Game_hard_drop g = Some (res, g')"
  shows "piece_only_while_playing g'"
proof (cases "active g = None \<or> game_over g")
  case True
  then show ?thesis using assms by (simp add: Game_hard_drop_def)
next
  case False
  then have c: "active g \<noteq> None" "\<not> game_over g" by simp_all
  from assms(2) False obtain r g1 where y: "hard_drop_loop g 0 = Some (r, g1)"
    by (cases "hard_drop_loop g 0") (auto simp: Game_hard_drop_def)
  note p = hard_drop_loop_result [OF y, unfolded hard_drop_loop_post_def]
  have i: "piece_only_while_playing g1"
    using p c by (simp add: piece_only_while_playing_def)
  show ?thesis
  proof (cases r)
    case (Inl e)
    then have "Game_hard_drop g = Some (Inl e, g1)"
      using c y by (auto simp: Game_hard_drop_def)
    then show ?thesis using assms(2) i by simp
  next
    case (Inr d)
    let ?g2 = "g1\<lparr>score_manager := add_hard_drop (score_manager g1) d\<rparr>"
    have h: "Game_hard_drop g = Some (Game_lock_piece ?g2)"
      using hard_drop_unfold [OF c] y Inr by simp
    have "piece_only_while_playing ?g2"
      using i by (simp add: piece_only_while_playing_def)
    then have "piece_only_while_playing (snd (Game_lock_piece ?g2))"
      by (rule lock_piece_inv)
    then show ?thesis using assms(2) h by simp
  qed
qed

lemma apply_operation_inv:
  assumes "piece_only_while_playing g" "apply_operation g c = Some g'"
  shows "piece_only_while_playing g'"
proof (cases c)
  case (Start profile)
  then show ?thesis using assms start_inv [OF assms(1), of profile] by auto
next
  case (Move dx dy)
  then show ?thesis using assms move_inv [OF assms(1), of dx dy] by auto
next
  case (Rotate clockwise)
  then show ?thesis using assms rotate_inv [OF assms(1), of clockwise] by auto
next
  case Tick
  then show ?thesis using assms tick_inv [OF assms(1)] by auto
next
  case Hard_drop
  with assms(2) obtain res where "Game_hard_drop g = Some (res, g')" by auto
  then show ?thesis using hard_drop_inv [OF assms(1)] by simp
next
  case Lock_piece
  then show ?thesis using assms lock_piece_inv [OF assms(1)] by auto
next
  case (Finalize now)
  then show ?thesis using assms finalize_inv [OF assms(1), of now] by auto
qed

lemma run_operations_inv:
  "piece_only_while_playing g \<Longrightarrow> run_operations g cs = Some g' \<Longrightarrow> piece_only_while_playing g'"
proof (induction cs arbitrary: g)
  case Nil
  then show ?case by simp
next
  case (Cons c cs)
  from Cons.prems(2) obtain g1 where s: "apply_operation g c = Some g1" "run_operations g1 cs = Some g'"
    by (cases "apply_operation g c") simp_all
  from apply_operation_inv [OF Cons.prems(1) s(1)] have "piece_only_while_playing g1" .
  from Cons.IH [OF this s(2)] show ?case .
qed

text \<open>
  Claim C7. In every state reached from a fresh \<^verbatim>\<open>Game\<close> by any sequence of
  \<^verbatim>\<open>start\<close>, \<^verbatim>\<open>move\<close>, \<^verbatim>\<open>rotate\<close>, \<^verbatim>\<open>tick\<close>, \<^verbatim>\<open>hard_drop\<close>, \<^verbatim>\<open>lock_piece\<close> and
  \<^verbatim>\<open>finalize\<close>, whatever each call returned or raised, \<open>game_over\<close> implies that
  there is no active piece.
\<close>

theorem no_piece_when_game_over:
  "run_operations (Game_init b sm pieces r) cs = Some g \<Longrightarrow> game_over g \<Longrightarrow> active g = None"
proof -
  assume a: "run_operations (Game_init b sm pieces r) cs = Some g" and o: "game_over g"
  have "piece_only_while_playing (Game_init b sm pieces r)"
    by (simp add: piece_only_while_playing_def Game_init_def)
  from run_operations_inv [OF this a] o show "active g = None"
    by (simp add: piece_only_while_playing_def)
qed

theorem no_piece_when_game_over_witness:
  "map_option game_over (run_operations game_fresh [Start None, Hard_drop]) = Some True
   \<and> map_option active (run_operations game_fresh [Start None, Hard_drop]) = Some None"
proof -
  have a: "map_option game_over (run_operations game_fresh [Start None, Hard_drop]) = Some True"
    by code_simp
  then obtain g where g: "run_operations game_fresh [Start None, Hard_drop] = Some g" "game_over g"
    by auto
  from no_piece_when_game_over [OF g(1) [unfolded game_fresh_def] g(2)]
  have "active g = None" .
  with a g show ?thesis by simp
qed

text \<open>
  Claim C2, as amended. A gravity tick whose downward move succeeds lets the
  piece fall one cell without locking, leaves the board as it was, and raises the
  score by exactly 1: \<^verbatim>\<open>move\<close> gives the soft-drop credit for every accepted
  move with \<open>dy > 0\<close>, and \<^verbatim>\<open>tick\<close> moves the piece through \<^verbatim>\<open>move(0, 1)\<close>.
  Nothing else of the score state changes.
\<close>

theorem tick_move_credits_one:
  "active g = Some a \<and> \<not> game_over g \<and> fst (Game_move g 0 1) = Inr True \<longrightarrow>
     fst (Game_tick g) = Inr ()
   \<and> active (snd (Game_tick g))
        = Some \<lparr>state = state a, origin = (fst (origin a), snd (origin a) + 1)\<rparr>
   \<and> board (snd (Game_tick g)) = board g
   \<and> score (score_manager (snd (Game_tick g))) = score (score_manager g) + 1
   \<and> score_manager (snd (Game_tick g))
        = (score_manager g)\<lparr>score := score (score_manager g) + 1\<rparr>"
proof
  assume h: "active g = Some a \<and> \<not> game_over g \<and> fst (Game_move g 0 1) = Inr True"
  obtain r g' where "Game_move g 0 1 = (r, g')" by (cases "Game_move g 0 1")
  with h have m: "Game_move g 0 1 = (Inr True, g')" by simp
  have c: "(active g = None \<or> game_over g) = False" using h by simp
  have t: "Game_tick g = (Inr (), g')" unfolding Game_tick_def c m by simp
  have p: "active g' = Some \<lparr>state = state a, origin = (fst (origin a), snd (origin a) + 1)\<rparr>"
    using m h by (auto simp: Game_move_def Let_def split: sum.splits if_splits)
  note f = move_down_moved [OF m]
  show "fst (Game_tick g) = Inr ()
   \<and> active (snd (Game_tick g))
        = Some \<lparr>state = state a, origin = (fst (origin a), snd (origin a) + 1)\<rparr>
   \<and> board (snd (Game_tick g)) = board g
   \<and> score (score_manager (snd (Game_tick g))) = score (score_manager g) + 1
   \<and> score_manager (snd (Game_tick g))
        = (score_manager g)\<lparr>score := score (score_manager g) + 1\<rparr>"
    unfolding t m using p f(5,6) by simp
qed

theorem tick_move_credits_one_witness:
  "active game_started = Some \<lparr>state = \<lparr>tetromino = tetromino_O, rotation_index = 0\<rparr>, origin = (2, 0)\<rparr>
   \<and> \<not> game_over game_started
   \<and> fst (Game_move game_started 0 1) = Inr True
   \<and> score (score_manager game_started) = 0
   \<and> score (score_manager (snd (Game_tick game_started))) = 1
   \<and> active (snd (Game_tick game_started))
        = Some \<lparr>state = \<lparr>tetromino = tetromino_O, rotation_index = 0\<rparr>, origin = (2, 1)\<rparr>"
proof -
  let ?a = "\<lparr>state = \<lparr>tetromino = tetromino_O, rotation_index = 0\<rparr>, origin = (2, 0)\<rparr>"
  have a: "active game_started = Some ?a" by code_simp
  have b: "\<not> game_over game_started" by code_simp
  have c: "fst (Game_move game_started 0 1) = Inr True" by code_simp
  have d: "score (score_manager game_started) = 0" by code_simp
  from tick_move_credits_one [of game_started ?a] a b c d
  show ?thesis by simp
qed

text \<open>
  Claim C2 as stated fails: in the started small game a tick moves the piece down
  without locking it, and the score after the tick is not the score before.
\<close>

theorem tick_leaves_score_counterexample:
  "active game_started \<noteq> None \<and> \<not> game_over game_started
   \<and> fst (Game_move game_started 0 1) = Inr True
   \<and> active (snd (Game_tick game_started)) \<noteq> None
   \<and> score (score_manager (snd (Game_tick game_started))) \<noteq> score (score_manager game_started)"
proof -
  have "active game_started \<noteq> None" by code_simp
  moreover have "\<not> game_over game_started" by code_simp
  moreover have "fst (Game_move game_started 0 1) = Inr True" by code_simp
  moreover have "active (snd (Game_tick game_started)) \<noteq> None" by code_simp
  moreover have "score (score_manager (snd (Game_tick game_started))) = 1" by code_simp
  moreover have "score (score_manager game_started) = 0" by code_simp
  ultimately show ?thesis by simp
qed

section \<open>The score of a hard drop\<close>

lemma loop_step_moved:
  "Game_move g 0 1 = (Inr True, g1) \<Longrightarrow> hard_drop_loop g n = hard_drop_loop g1 (n + 1)"
  by (subst hard_drop_loop.simps) simp

lemma loop_step_stop:
  assumes "fst (Game_move g 0 1) = Inr False"
  shows "hard_drop_loop g n = Some (Inr n, g)"
proof -
  obtain r g' where m: "Game_move g 0 1 = (r, g')" by (cases "Game_move g 0 1")
  with assms have r: "r = Inr False" by simp
  then have "g' = g" using move_not_moved [OF m] by simp
  then show ?thesis using m r by (subst hard_drop_loop.simps) simp
qed

lemma lock_cleared_lines_score_manager:
  "lock_cleared_lines (g\<lparr>score_manager := sm\<rparr>) = lock_cleared_lines g"
  by (simp add: lock_cleared_lines_def cong: option.case_cong sum.case_cong)

lemma final_score_Some: "final_score (Some p) = Some (score (score_manager (snd p)))"
  by (simp add: final_score_def split_beta)

text \<open>
  Claim C1, as amended. For a game with an active piece that is not over, a hard
  drop whose loop travels \<open>d\<close> cells and whose lock clears no line returns and
  raises the score by exactly \<open>3 * d\<close>: each of the \<open>d\<close> steps goes through
  \<^verbatim>\<open>move(0, 1)\<close>, which credits the soft-drop point, and the hard-drop bonus of
  2 points per cell is added to that.
\<close>

theorem hard_drop_credits_three_per_cell:
  "active g \<noteq> None \<and> \<not> game_over g \<and> hard_drop_loop g 0 = Some (Inr d, g1)
   \<and> lock_cleared_lines g1 = Some 0 \<longrightarrow>
      0 \<le> d
    \<and> score (score_manager g1) = score (score_manager g) + d
    \<and> final_score (Game_hard_drop g) = Some (score (score_manager g) + d + 2 * d)"
proof
  assume h: "active g \<noteq> None \<and> \<not> game_over g \<and> hard_drop_loop g 0 = Some (Inr d, g1)
   \<and> lock_cleared_lines g1 = Some 0"
  then have a: "active g \<noteq> None" and o: "\<not> game_over g"
    and l: "hard_drop_loop g 0 = Some (Inr d, g1)" and c: "lock_cleared_lines g1 = Some 0"
    by simp_all
  from hard_drop_loop_result [OF l]
  have d: "0 \<le> d" and s: "score_manager g1 = (score_manager g)\<lparr>score := score (score_manager g) + d\<rparr>"
    by (simp_all add: hard_drop_loop_post_def)
  let ?g2 = "g1\<lparr>score_manager := add_hard_drop (score_manager g1) d\<rparr>"
  have u: "Game_hard_drop g = Some (Game_lock_piece ?g2)" by (rule hard_drop_unfold [OF a o l])
  have c2: "lock_cleared_lines ?g2 = Some 0" using c by (simp add: lock_cleared_lines_score_manager)
  have "score_manager (snd (Game_lock_piece ?g2)) = snd (record_line_clear (score_manager ?g2) 0)"
    by (rule lock_piece_score [OF c2])
  then have "score (score_manager (snd (Game_lock_piece ?g2))) = score (add_hard_drop (score_manager g1) d)"
    by (simp add: record_line_clear_def)
  also have "\<dots> = score (score_manager g1) + 2 * d"
    using d by (simp add: add_hard_drop_def hard_drop_bonus_def)
  finally have f: "score (score_manager (snd (Game_lock_piece ?g2))) = score (score_manager g) + d + 2 * d"
    using s by simp
  show "0 \<le> d
    \<and> score (score_manager g1) = score (score_manager g) + d
    \<and> final_score (Game_hard_drop g) = Some (score (score_manager g) + d + 2 * d)"
    unfolding u final_score_Some using d s f by simp
qed

lemma game_started_drop:
  "hard_drop_loop game_started 0 = Some (Inr 1, game_dropped)"
proof -
  have a: "fst (Game_move game_started 0 1) = Inr True" by code_simp
  have b: "fst (Game_move game_dropped 0 1) = Inr False" by code_simp
  have "Game_move game_started 0 1 = (Inr True, game_dropped)"
    unfolding game_dropped_def using a by (cases "Game_move game_started 0 1") simp
  from loop_step_moved [OF this, of 0] loop_step_stop [OF b, of 1]
  show ?thesis by simp
qed

theorem hard_drop_credits_three_per_cell_witness:
  "active game_started \<noteq> None \<and> \<not> game_over game_started
   \<and> hard_drop_loop game_started 0 = Some (Inr 1, game_dropped)
   \<and> lock_cleared_lines game_dropped = Some 0
   \<and> score (score_manager game_started) = 0
   \<and> score (score_manager game_dropped) = 1
   \<and> final_score (Game_hard_drop game_started) = Some 3"
proof -
  have a: "active game_started \<noteq> None" by code_simp
  have b: "\<not> game_over game_started" by code_simp
  have c: "lock_cleared_lines game_dropped = Some 0" by code_simp
  have d: "score (score_manager game_started) = 0" by code_simp
  from hard_drop_credits_three_per_cell [of game_started 1 game_dropped] a b c d game_started_drop
  show ?thesis by simp
qed

text \<open>
  Claim C1 as stated fails: in the started small game the hard drop travels one
  cell, its lock clears no line, and the score it leaves is not the score before
  plus 2.
\<close>

theorem hard_drop_two_per_cell_counterexample:
  "active game_started \<noteq> None \<and> \<not> game_over game_started
   \<and> hard_drop_loop game_started 0 = Some (Inr 1, game_dropped)
   \<and> lock_cleared_lines game_dropped = Some 0
   \<and> final_score (Game_hard_drop game_started) \<noteq> Some (score (score_manager game_started) + 2 * 1)"
proof -
  have a: "active game_started \<noteq> None" by code_simp
  have b: "\<not> game_over game_started" by code_simp
  have c: "lock_cleared_lines game_dropped = Some 0" by code_simp
  have d: "score (score_manager game_started) = 0" by code_simp
  have e: "final_score (Game_hard_drop game_started) = Some 3" by code_simp
  show ?thesis using a b c d e game_started_drop by simp
qed

section \<open>The hard drop returns\<close>

text \<open>
  A move down is accepted only while every block stays above the bottom, so the
  loop of \<^verbatim>\<open>hard_drop\<close> ends for every piece that has at least one block, as
  every state of the catalog has: the hard drop returns unless the active piece
  has no block at all.
\<close>

lemma can_place_True:
  "Board_can_place b cs = Inr True \<Longrightarrow> (x, y) \<in> set cs \<Longrightarrow> 0 \<le> x \<and> x < width b \<and> y < height b"
proof (induction cs)
  case Nil
  then show ?case by simp
next
  case (Cons c cs)
  obtain cx cy where c: "c = (cx, cy)" by (cases c)
  from Cons.prems(1) have h: "0 \<le> cx \<and> cx < width b \<and> cy < height b \<and> Board_can_place b cs = Inr True"
    unfolding c by (auto split: if_splits sum.splits)
  show ?case
  proof (cases "(x, y) = c")
    case True
    then show ?thesis using h c by simp
  next
    case False
    then have "(x, y) \<in> set cs" using Cons.prems(2) by simp
    then show ?thesis using Cons.IH h by simp
  qed
qed

lemma move_down_piece:
  assumes "Game_move g 0 1 = (Inr True, g')" "active g = Some a" "blocks (state a) = Inr bs"
  shows "active g' = Some \<lparr>state = state a, origin = (fst (origin a), snd (origin a) + 1)\<rparr>"
    "Board_can_place (board g)
       (map (\<lambda>(bx, by). (fst (origin a) + bx, snd (origin a) + 1 + by)) bs) = Inr True"
  using assms by (auto simp: Game_move_def Let_def split: sum.splits if_splits)

lemma hard_drop_loop_returns_aux:
  "active g = Some a \<Longrightarrow> blocks (state a) = Inr ((bx, by) # bs) \<Longrightarrow>
   k = nat (height (board g) - snd (origin a) - by) \<Longrightarrow> \<exists>y. hard_drop_loop g n = Some y"
proof (induction k arbitrary: g a n rule: less_induct)
  case (less k)
  obtain r g' where m: "Game_move g 0 1 = (r, g')" by (cases "Game_move g 0 1")
  show ?case
  proof (cases "r = Inr True")
    case False
    then show ?thesis
      using m by (subst hard_drop_loop.simps) (auto split: sum.splits)
  next
    case True
    with m have mm: "Game_move g 0 1 = (Inr True, g')" by simp
    note p = move_down_piece [OF mm less.prems(1,2)]
    have "(fst (origin a) + bx, snd (origin a) + 1 + by)
            \<in> set (map (\<lambda>(bx, by). (fst (origin a) + bx, snd (origin a) + 1 + by)) ((bx, by) # bs))"
      by simp
    from can_place_True [OF p(2) this]
    have b: "snd (origin a) + 1 + by < height (board g)" by simp
    let ?a' = "\<lparr>state = state a, origin = (fst (origin a), snd (origin a) + 1)\<rparr>"
    have bd: "board g' = board g" using move_down_moved [OF mm] by simp
    have lt: "nat (height (board g') - snd (origin ?a') - by) < k"
      using b less.prems(3) bd by simp
    have "\<exists>y. hard_drop_loop g' (n + 1) = Some y"
      by (rule less.IH [OF lt, of g' ?a']) (simp_all add: p(1) less.prems(2))
    then show ?thesis using loop_step_moved [OF mm, of n] by simp
  qed
qed

lemma hard_drop_returns:
  assumes "\<forall>a. active g = Some a \<longrightarrow> blocks (state a) \<noteq> Inr []"
  shows "\<exists>res. Game_hard_drop g = Some res"
proof (cases "active g = None \<or> game_over g")
  case True
  then show ?thesis by (simp add: Game_hard_drop_def)
next
  case False
  then obtain a where a: "active g = Some a" by auto
  have "\<exists>y. hard_drop_loop g 0 = Some y"
  proof (cases "blocks (state a)")
    case (Inl e)
    then have "Game_move g 0 1 = (Inl e, g)" using a False by (simp add: Game_move_def)
    then show ?thesis by (subst hard_drop_loop.simps) simp
  next
    case (Inr bs)
    then have "bs \<noteq> []" using assms a by auto
    then obtain bx "by" rest where "bs = (bx, by) # rest" by (cases bs) auto
    then show ?thesis using hard_drop_loop_returns_aux [OF a, of bx "by" rest] Inr by simp
  qed
  then obtain r g1 where "hard_drop_loop g 0 = Some (r, g1)" by auto
  then show ?thesis using False by (cases r) (auto simp: Game_hard_drop_def)
qed

lemma catalog_blocks_nonempty:
  assumes "t \<in> set ALL_TETROMINOES" "rotated t i = Inr s"
  shows "blocks s \<noteq> Inr []"
proof -
  from assms(2) have "offsets t i = blocks s" by (simp add: offsets_def)
  moreover from catalog_state_count [OF assms(1)] have nz: "length (rotations t) \<noteq> 0" by auto
  have p: "0 \<le> i mod int (length (rotations t))" "i mod int (length (rotations t)) < int (length (rotations t))"
    using nz by simp_all
  then have "nat (i mod int (length (rotations t))) < length (rotations t)" by linarith
  then have "rotations t ! nat (i mod int (length (rotations t))) \<in> set (rotations t)" by simp
  then have "length (rotations t ! nat (i mod int (length (rotations t)))) = 4"
    using catalog_four_blocks [OF assms(1)] by simp
  then have ne: "rotations t ! nat (i mod int (length (rotations t))) \<noteq> []" by auto
  ultimately have e: "blocks s = Inr (rotations t ! nat (i mod int (length (rotations t))))"
    using offsets_ok [OF nz, of i] by simp
  show ?thesis unfolding e using ne by simp
qed

section \<open>The board keeps its shape\<close>

text \<open>
  The constructor builds a well-formed board, and \<^verbatim>\<open>reset\<close>, \<^verbatim>\<open>lock_piece\<close>
  and \<^verbatim>\<open>clear_full_lines\<close> keep it well-formed, a raise included.
\<close>

lemma Board_init_rows: "0 \<le> h \<Longrightarrow> int (length (grid (Board_init w h))) = height (Board_init w h)"
  by (simp add: Board_init_def)

lemma Board_init_wf: "board_wf (Board_init w h)"
  by (simp add: Board_init_def board_wf_def)

lemma grid_set_shape:
  assumes "grid_set g y x v = Inr g'"
  shows "map length g' = map length g"
proof -
  from assms obtain j where j: "py_index g y = Inr j"
    by (cases "py_index g y") (simp_all add: grid_set_def)
  then have jl: "j < length g" by (auto simp: py_index_def Let_def split: if_splits)
  from assms j obtain row where r: "py_setitem (g ! j) x v = Inr row" "g' = g[j := row]"
    by (cases "py_setitem (g ! j) x v") (simp_all add: grid_set_def)
  from r(1) have "length row = length (g ! j)"
    by (auto simp: py_setitem_def split: sum.splits)
  then show ?thesis using r(2) jl by (simp add: map_update list_update_same_conv)
qed

lemma grid_assign_all_shape:
  "map length (snd (grid_assign_all g cs v)) = map length g"
proof (induction cs arbitrary: g)
  case Nil
  show ?case by simp
next
  case (Cons c cs)
  obtain x y where c: "c = (x, y)" by (cases c)
  show ?case
  proof (cases "grid_set g y x v")
    case (Inl e)
    then show ?thesis using c by simp
  next
    case (Inr g')
    then show ?thesis using c Cons.IH [of g'] grid_set_shape [OF Inr] by simp
  qed
qed

lemma map_eq_replicate:
  "map f xs = replicate n k \<longleftrightarrow> length xs = n \<and> (\<forall>x \<in> set xs. f x = k)"
proof
  assume e: "map f xs = replicate n k"
  then have "length (map f xs) = length (replicate n k)" by simp
  then have l: "length xs = n" by simp
  have "set (map f xs) \<subseteq> {k}" unfolding e by auto
  then have "\<forall>x \<in> set xs. f x = k" by auto
  with l show "length xs = n \<and> (\<forall>x \<in> set xs. f x = k)" by simp
next
  assume a: "length xs = n \<and> (\<forall>x \<in> set xs. f x = k)"
  then have "map f xs = map (\<lambda>x. k) xs" by simp
  also have "\<dots> = replicate (length xs) k" by (rule map_replicate_const)
  finally show "map f xs = replicate n k" using a by simp
qed

lemma board_wf_shape:
  "board_wf b \<longleftrightarrow> map length (grid b) = replicate (nat (height b)) (nat (width b))"
  by (simp add: board_wf_def map_eq_replicate)

lemma Board_lock_piece_wf: "board_wf b \<Longrightarrow> board_wf (snd (Board_lock_piece b bs v))"
  by (simp add: board_wf_shape Board_lock_piece_def split_beta grid_assign_all_shape)

lemma Board_reset_wf: "board_wf b \<Longrightarrow> board_wf (snd (Board_reset b))"
  by (simp add: board_wf_shape Board_reset_def split_beta Let_def grid_assign_all_shape)

lemma Board_clear_full_lines_wf:
  assumes "board_wf b"
  shows "board_wf (snd (Board_clear_full_lines b))"
proof -
  let ?kept = "filter row_has_empty (grid b)"
  have l: "length ?kept \<le> nat (height b)"
    using assms length_filter_le [of row_has_empty "grid b"] by (simp add: board_wf_def)
  then have n: "nat (height b - int (length ?kept)) + length ?kept = nat (height b)" by linarith
  have r: "\<forall>row \<in> set ?kept. length row = nat (width b)"
    using assms by (simp add: board_wf_def)
  show ?thesis
    using assms n r by (auto simp: Board_clear_full_lines_def Let_def board_wf_def)
qed

end
